theory Spec2Isabelle
  imports Complex_Main
begin

section \<open>Python strings\<close>

text \<open>
  A Python \<open>str\<close> is modelled as a \<open>string\<close> whose characters are the code points below
  256. \<open>isspace\<close> lists the code points in that range for which Python's \<open>str.isspace\<close>
  holds; they are the characters \<open>str.strip()\<close> removes at both ends.
\<close>

definition isspace :: "char \<Rightarrow> bool" where
  "isspace c =
     (let n = (of_char c :: nat)
      in (9 \<le> n \<and> n \<le> 13) \<or> (28 \<le> n \<and> n \<le> 32) \<or> n = 133 \<or> n = 160)"

definition lstrip :: "string \<Rightarrow> string" where
  "lstrip s = dropWhile isspace s"

definition strip :: "string \<Rightarrow> string" where
  "strip s = rev (lstrip (rev (lstrip s)))"

definition startswith :: "string \<Rightarrow> string \<Rightarrow> bool" where
  "startswith s p = (take (length p) s = p)"

text \<open>\<open>s <= t\<close> on strings: by code points, a prefix before its extensions.\<close>

fun str_le :: "string \<Rightarrow> string \<Rightarrow> bool" where
  "str_le [] t = True"
| "str_le (c # s) [] = False"
| "str_le (c # s) (d # t) = ((of_char c :: nat) < of_char d \<or> (c = d \<and> str_le s t))"

text \<open>
  \<open>s.split(sep)\<close>: the occurrences of \<open>sep\<close> are found from the left and do not overlap.
  The program only splits on \<open>","\<close> and \<open>"__"\<close>; Python refuses an empty separator, which
  here never splits.
\<close>

function py_split :: "string \<Rightarrow> string \<Rightarrow> string list" where
  "py_split [] sep = [[]]"
| "py_split (c # cs) sep =
     (if sep \<noteq> [] \<and> take (length sep) (c # cs) = sep
      then [] # py_split (drop (length sep) (c # cs)) sep
      else (case py_split cs sep of
              [] \<Rightarrow> [[c]]
            | t # ts \<Rightarrow> (c # t) # ts))"
  by pat_completeness auto
termination
  by (relation "measure (\<lambda>(s, sep). length s)") auto

section \<open>Sort expression parser (params_funcs.py)\<close>

text \<open>
  The body of the \<open>for field in fields\<close> loop of \<open>parse_sort_string\<close>, on the pair of
  lists \<open>(sort_columns, sort_orders)\<close> that the loop appends to.
\<close>

definition sort_field_step :: "string list \<times> string list \<Rightarrow> string \<Rightarrow> string list \<times> string list" where
  "sort_field_step acc field =
     (case acc of (sort_columns, sort_orders) \<Rightarrow>
        if startswith field ''-''
        then (let column_name = strip (drop 1 field)
              in if column_name \<noteq> []
                 then (sort_columns @ [column_name], sort_orders @ [''desc''])
                 else (sort_columns, sort_orders))
        else (sort_columns @ [field], sort_orders @ [''asc'']))"

definition parse_sort_string :: "string \<Rightarrow> string list \<times> string list" where
  "parse_sort_string sort_string =
     (if sort_string = [] \<or> strip sort_string = [] then ([], [])
      else (let fields = map strip (filter (\<lambda>field. strip field \<noteq> []) (py_split sort_string '',''))
            in foldl sort_field_step ([], []) fields))"

section \<open>Python values and errors\<close>

text \<open>
  The values a query parameter or a filter value can hold. A float is kept as mantissa and
  binary exponent, a datetime as microseconds since the epoch: the program only passes
  them on.
\<close>

datatype py_value =
    PyStr string
  | PyInt int
  | PyFloat int int
  | PyBool bool
  | PyDatetime int
  | PyList "py_value list"

text \<open>The \<open>detail\<close> messages of the HTTP errors, with the interpolated id kept as a number.\<close>

datatype detail =
    IdNotFound int
  | IdDoesntExist int
  | IdDoesntExistToRestore int
  | ErrorDuringCreating
  | ErrorDuringUpdating
  | UnsupportedSQLOperator

text \<open>
  Every raise of the program is a value: \<open>HTTPException\<close> with its status code, and the
  Python and SQLAlchemy exceptions with the name they complain about.
\<close>

datatype error =
    HTTPException nat detail
  | KeyError string
  | ValueError string
  | AttributeError string
  | TypeError string
  | IndexError string
  | ZeroDivisionError
  | OverflowError
  | ArgumentError string
  | CompileError string

text \<open>
  \<open>int(x)\<close> on a string, base 10: surrounding whitespace is ignored, one sign is allowed,
  and the digits may be grouped by single underscores. \<open>None\<close> stands for \<open>ValueError\<close>,
  which CPython also raises for a number of more than 4300 digits (its default limit).
\<close>

definition max_str_digits :: nat where
  "max_str_digits = 4300"

definition isdigit :: "char \<Rightarrow> bool" where
  "isdigit c = (let n = (of_char c :: nat) in 48 \<le> n \<and> n \<le> 57)"

fun digits_grouped :: "string \<Rightarrow> bool" where
  "digits_grouped [] = False"
| "digits_grouped [c] = isdigit c"
| "digits_grouped (c # d # cs) =
     (isdigit c \<and> (if d = CHR ''_'' then digits_grouped cs else digits_grouped (d # cs)))"

definition digits_ok :: "string \<Rightarrow> bool" where
  "digits_ok ds =
     (digits_grouped ds \<and> length (filter (\<lambda>c. c \<noteq> CHR ''_'') ds) \<le> max_str_digits)"

definition digits_value :: "string \<Rightarrow> int" where
  "digits_value ds =
     foldl (\<lambda>a c. 10 * a + (int (of_char c) - 48)) 0 (filter (\<lambda>c. c \<noteq> CHR ''_'') ds)"

definition py_int :: "string \<Rightarrow> int option" where
  "py_int s =
     (case strip s of
        [] \<Rightarrow> None
      | c # cs \<Rightarrow>
          if c = CHR ''-'' then (if digits_ok cs then Some (- digits_value cs) else None)
          else if c = CHR ''+'' then (if digits_ok cs then Some (digits_value cs) else None)
          else if digits_ok (c # cs) then Some (digits_value (c # cs))
          else None)"

text \<open>
  A Python \<open>dict\<close> with string keys, in insertion order: \<open>d[k] = v\<close> replaces the value of a
  key that is present and appends a new key otherwise.
\<close>

fun dict_set :: "string \<Rightarrow> 'v \<Rightarrow> (string \<times> 'v) list \<Rightarrow> (string \<times> 'v) list" where
  "dict_set k v [] = [(k, v)]"
| "dict_set k v ((k', v') # d) = (if k' = k then (k, v) # d else (k', v') # dict_set k v d)"

section \<open>Column type classifier (filter_generator.py)\<close>

text \<open>
  The storage type of a column: the six SQLAlchemy classes the tables of the generator
  name (an instance of a subclass counts as its class), and \<open>Other\<close> for every other type,
  with its class name.
\<close>

datatype sql_type = String | AutoString | Integer | Float | DateTime | Boolean | Other string

datatype python_type = T_str | T_int | T_float | T_datetime | T_bool

definition isinstance :: "sql_type \<Rightarrow> sql_type \<Rightarrow> bool" where
  "isinstance sqlalchemy_type sql_class = (sqlalchemy_type = sql_class)"

definition TYPE_OPERATORS :: "(sql_type \<times> string list) list" where
  "TYPE_OPERATORS =
     [(String, [''eq'', ''like'', ''in'']),
      (AutoString, [''eq'', ''like'', ''in'']),
      (Integer, [''eq'', ''in'']),
      (Float, [''eq'']),
      (DateTime, [''gte'', ''lte'', ''gt'', ''lt'']),
      (Boolean, [''eq''])]"

definition OPERATOR_MAPPING :: "(string \<times> string) list" where
  "OPERATOR_MAPPING =
     [(''eq'', ''''),
      (''like'', ''__ilike''),
      (''gt'', ''__gt''),
      (''gte'', ''__gte''),
      (''lt'', ''__lt''),
      (''lte'', ''__lte''),
      (''in'', ''__in'')]"

definition type_mapping :: "(sql_type \<times> python_type) list" where
  "type_mapping =
     [(String, T_str),
      (AutoString, T_str),
      (Integer, T_int),
      (Float, T_float),
      (DateTime, T_datetime),
      (Boolean, T_bool)]"

definition get_python_type :: "sql_type \<Rightarrow> python_type" where
  "get_python_type sqlalchemy_type =
     (case find (\<lambda>(sql_class, python_type). isinstance sqlalchemy_type sql_class) type_mapping of
        Some (sql_class, python_type) \<Rightarrow> python_type
      | None \<Rightarrow> T_str)"

definition get_operators_for_type :: "sql_type \<Rightarrow> string list" where
  "get_operators_for_type sqlalchemy_type =
     (case find (\<lambda>(sql_class, operators). isinstance sqlalchemy_type sql_class) TYPE_OPERATORS of
        Some (sql_class, operators) \<Rightarrow> operators
      | None \<Rightarrow> [''eq''])"

text \<open>The operators of the specification: the keys of \<open>OPERATOR_MAPPING\<close>.\<close>

definition global_operators :: "string list" where
  "global_operators = map fst OPERATOR_MAPPING"

section \<open>Filter parameter synthesizer (filter_generator.py)\<close>

text \<open>
  What \<open>getattr(model_db, name, None)\<close> finds when the class has the attribute: the column
  of that name, or an attribute of another kind, which is a string (such as
  \<open>__tablename__\<close>) or an object that is no string (a method, a dictionary, the metadata),
  of which the truth value is kept. Relationships are not modelled. A column found is a
  true value in a test.
\<close>

datatype attribute = Column string | StrAttribute string | ObjectAttribute bool

text \<open>
  A table model: its class name, its columns, in the order of the table and with unique
  names, and the attributes of the class that are neither a column nor \<open>__name__\<close>.
\<close>

record model_class =
  name :: string
  columns :: "(string \<times> sql_type) list"
  other_attributes :: "(string \<times> attribute) list"

definition getattr :: "model_class \<Rightarrow> string \<Rightarrow> attribute option" where
  "getattr model_db attr =
     (if attr \<in> set (map fst (columns model_db)) then Some (Column attr)
      else if attr = ''__name__'' then Some (StrAttribute (name model_db))
      else map_of (other_attributes model_db) attr)"

definition exclude_fields :: "string list" where
  "exclude_fields = [''created_by'', ''updated_by'', ''updated_at'', ''status_id'']"

definition get_model_fields :: "model_class \<Rightarrow> string list \<Rightarrow> (string \<times> sql_type) list" where
  "get_model_fields model excluded =
     filter (\<lambda>(column_name, column_type). column_name \<notin> set excluded) (columns model)"

text \<open>
  The declared parameters of the generated function: name, external alias and type
  (every parameter is optional and defaults to \<open>None\<close>).
\<close>

definition function_params :: "(string \<times> sql_type) list \<Rightarrow> (string \<times> string \<times> python_type) list" where
  "function_params model_fields =
     concat (map (\<lambda>(field_name, field_type).
       map (\<lambda>operator.
              (''filter_'' @ field_name @ ''_'' @ operator,
               ''filter['' @ field_name @ '']['' @ operator @ '']'',
               if operator = ''in'' \<or> operator = ''not_in'' then T_str
               else get_python_type field_type))
           (get_operators_for_type field_type)) model_fields)"

text \<open>
  The statements of the generated function's body. The source writes them as text and
  runs \<open>exec\<close> on it; here each one keeps its parameter name and its key:
  \<^item> \<open>IfLike p k\<close>: \<open>if p: filters[k] = f'%{p}%'\<close>
  \<^item> \<open>IfInInt p k\<close>: \<open>if p: try: filters[k] = [int(x.strip()) for x in p.split(',')]\<close>,
    \<open>except ValueError: pass\<close>
  \<^item> \<open>IfInStr p k\<close>: the same with \<open>x.strip()\<close> in place of \<open>int(x.strip())\<close>
  \<^item> \<open>IfNotNone p k\<close>: \<open>if p is not None: filters[k] = p\<close>
\<close>

datatype gen_stmt =
    IfLike string string
  | IfInInt string string
  | IfInStr string string
  | IfNotNone string string

definition gen_stmt_for :: "string \<Rightarrow> sql_type \<Rightarrow> string \<Rightarrow> error + gen_stmt" where
  "gen_stmt_for field_name field_type operator =
     (let param_name = ''filter_'' @ field_name @ ''_'' @ operator
      in case map_of OPERATOR_MAPPING operator of
           None \<Rightarrow> Inl (KeyError operator)
         | Some suffix \<Rightarrow>
             (let fastcrud_key = field_name @ suffix
              in if operator = ''like'' then Inr (IfLike param_name fastcrud_key)
                 else if operator = ''in'' \<or> operator = ''not_in''
                 then (if get_python_type field_type = T_int
                       then Inr (IfInInt param_name fastcrud_key)
                       else Inr (IfInStr param_name fastcrud_key))
                 else Inr (IfNotNone param_name fastcrud_key)))"

fun gen_stmts :: "string \<Rightarrow> sql_type \<Rightarrow> string list \<Rightarrow> error + gen_stmt list" where
  "gen_stmts field_name field_type [] = Inr []"
| "gen_stmts field_name field_type (operator # operators) =
     (case gen_stmt_for field_name field_type operator of
        Inl e \<Rightarrow> Inl e
      | Inr s \<Rightarrow>
          (case gen_stmts field_name field_type operators of
             Inl e \<Rightarrow> Inl e
           | Inr ss \<Rightarrow> Inr (s # ss)))"

fun gen_body :: "(string \<times> sql_type) list \<Rightarrow> error + gen_stmt list" where
  "gen_body [] = Inr []"
| "gen_body ((field_name, field_type) # model_fields) =
     (case gen_stmts field_name field_type (get_operators_for_type field_type) of
        Inl e \<Rightarrow> Inl e
      | Inr ss \<Rightarrow>
          (case gen_body model_fields of
             Inl e \<Rightarrow> Inl e
           | Inr rest \<Rightarrow> Inr (ss @ rest)))"

text \<open>
  \<open>create_filter_dependency(model_class, exclude_fields)\<close>: the body of the function that
  \<open>generate_filter_function\<close> returns.
\<close>

definition generate_filter_function :: "model_class \<Rightarrow> string list \<Rightarrow> error + gen_stmt list" where
  "generate_filter_function model excluded = gen_body (get_model_fields model excluded)"

text \<open>
  Running the generated function on the arguments of a request (\<open>args p = None\<close> when the
  parameter \<open>p\<close> is absent). The parameters of \<open>like\<close> and \<open>in\<close> are declared \<open>Optional[str]\<close>,
  so a request gives them a string or nothing.
\<close>

definition run_stmt :: "(string \<Rightarrow> py_value option) \<Rightarrow> (string \<times> py_value) list \<Rightarrow> gen_stmt \<Rightarrow> (string \<times> py_value) list" where
  "run_stmt args filters stmt =
     (case stmt of
        IfLike p k \<Rightarrow>
          (case args p of
             Some (PyStr s) \<Rightarrow> if s \<noteq> [] then dict_set k (PyStr (''%'' @ s @ ''%'')) filters else filters
           | _ \<Rightarrow> filters)
      | IfInInt p k \<Rightarrow>
          (case args p of
             Some (PyStr s) \<Rightarrow>
               if s \<noteq> []
               then (case those (map (\<lambda>x. py_int (strip x)) (py_split s '','')) of
                       None \<Rightarrow> filters
                     | Some ns \<Rightarrow> dict_set k (PyList (map PyInt ns)) filters)
               else filters
           | _ \<Rightarrow> filters)
      | IfInStr p k \<Rightarrow>
          (case args p of
             Some (PyStr s) \<Rightarrow>
               if s \<noteq> [] then dict_set k (PyList (map (\<lambda>x. PyStr (strip x)) (py_split s '',''))) filters
               else filters
           | _ \<Rightarrow> filters)
      | IfNotNone p k \<Rightarrow>
          (case args p of
             None \<Rightarrow> filters
           | Some v \<Rightarrow> dict_set k v filters))"

definition generated_filter_function :: "gen_stmt list \<Rightarrow> (string \<Rightarrow> py_value option) \<Rightarrow> (string \<times> py_value) list" where
  "generated_filter_function body args = foldl (run_stmt args) [] body"

section \<open>Queries (the statements SQLModel builds)\<close>

datatype Status = active | inactive | deleted

datatype SQLOperators = eq | ilike | op_in | gte | lte | gt | lt

definition operator_value :: "SQLOperators \<Rightarrow> string" where
  "operator_value operator =
     (case operator of
        eq \<Rightarrow> ''eq'' | ilike \<Rightarrow> ''ilike'' | op_in \<Rightarrow> ''in'' | gte \<Rightarrow> ''gte''
      | lte \<Rightarrow> ''lte'' | gt \<Rightarrow> ''gt'' | lt \<Rightarrow> ''lt'')"

text \<open>
  The conditions the program builds: on the status column and on the primary key, a
  column compared with a filter value, and the Python boolean that \<open>None == v\<close> is.
\<close>

datatype condition =
    StatusEq Status
  | StatusNe Status
  | IdEq int
  | ColumnOp string SQLOperators py_value
  | Literal bool

text \<open>
  An ordering clause: on a column, by its name, or on a text (\<open>asc\<close> and \<open>desc\<close> take a
  string as a label to resolve when the statement is compiled).
\<close>

datatype ordering = asc string | desc string | asc_text string | desc_text string

record statement =
  whereclause :: "condition list"
  order_by_clauses :: "ordering list"
  offset_clause :: "int option"
  limit_clause :: "int option"

definition select :: statement where
  "select = \<lparr>whereclause = [], order_by_clauses = [], offset_clause = None, limit_clause = None\<rparr>"

definition add_where :: "statement \<Rightarrow> condition \<Rightarrow> statement" where
  "add_where stmt c = stmt\<lparr>whereclause := whereclause stmt @ [c]\<rparr>"

definition order_by :: "statement \<Rightarrow> ordering \<Rightarrow> statement" where
  "order_by stmt clause = stmt\<lparr>order_by_clauses := order_by_clauses stmt @ [clause]\<rparr>"

section \<open>Predicate composer (params_funcs.py)\<close>

definition set_status :: "statement \<Rightarrow> model_class \<Rightarrow> Status \<Rightarrow> statement" where
  "set_status stmt model_db status = add_where stmt (StatusEq status)"

definition is_datetime :: "py_value \<Rightarrow> bool" where
  "is_datetime v = (case v of PyDatetime t \<Rightarrow> True | _ \<Rightarrow> False)"

text \<open>
  The expressions of \<open>set_filters\<close> on what \<open>getattr\<close> returned. On a column each one builds
  a condition. Otherwise \<open>column == v\<close> is a Python boolean: the comparison of the two
  strings for a string attribute, and \<open>False\<close> for \<open>None\<close> and for any other object;
  \<open>column.ilike(v)\<close> and \<open>column.in_(v)\<close> raise \<open>AttributeError\<close>; and an order comparison
  raises \<open>TypeError\<close>, except between two strings.
\<close>

definition column_eq :: "attribute option \<Rightarrow> py_value \<Rightarrow> condition" where
  "column_eq column v =
     (case column of
        None \<Rightarrow> Literal False
      | Some (Column c) \<Rightarrow> ColumnOp c eq v
      | Some (StrAttribute s) \<Rightarrow> Literal (v = PyStr s)
      | Some (ObjectAttribute truth) \<Rightarrow> Literal False)"

definition column_method :: "attribute option \<Rightarrow> SQLOperators \<Rightarrow> string \<Rightarrow> py_value \<Rightarrow> error + condition" where
  "column_method column operator method v =
     (case column of
        Some (Column c) \<Rightarrow> Inr (ColumnOp c operator v)
      | _ \<Rightarrow> Inl (AttributeError method))"

definition str_compare :: "SQLOperators \<Rightarrow> string \<Rightarrow> string \<Rightarrow> bool" where
  "str_compare operator s t =
     (if operator = gte then str_le t s
      else if operator = lte then str_le s t
      else if operator = gt then \<not> str_le s t
      else \<not> str_le t s)"

definition column_compare :: "attribute option \<Rightarrow> SQLOperators \<Rightarrow> string \<Rightarrow> py_value \<Rightarrow> error + condition" where
  "column_compare column operator symbol v =
     (case column of
        Some (Column c) \<Rightarrow> Inr (ColumnOp c operator v)
      | Some (StrAttribute s) \<Rightarrow>
          (case v of
             PyStr t \<Rightarrow> Inr (Literal (str_compare operator s t))
           | _ \<Rightarrow> Inl (TypeError symbol))
      | _ \<Rightarrow> Inl (TypeError symbol))"

text \<open>\<open>statement = statement.filter(condition)\<close>, when the condition was built.\<close>

definition statement_filter :: "statement \<Rightarrow> error + condition \<Rightarrow> error + statement" where
  "statement_filter stmt built =
     (case built of Inl e \<Rightarrow> Inl e | Inr c \<Rightarrow> Inr (add_where stmt c))"

text \<open>
  The body of the second loop of \<open>set_filters\<close>, for one entry \<open>(k, v)\<close>. When the test
  \<open>if not column\<close> succeeds, the \<open>HTTPException\<close> with status 400 is built and not raised:
  nothing changes, and \<open>column\<close> (\<open>None\<close> when the class has no such attribute) is used as
  it is in what follows.
\<close>

definition filter_entry :: "model_class \<Rightarrow> statement \<Rightarrow> string \<times> py_value \<Rightarrow> error + statement" where
  "filter_entry model_db stmt entry =
     (case entry of (k, v) \<Rightarrow>
       (case py_split k ''__'' of
          [] \<Rightarrow> Inl (IndexError ''elems'')
        | begin_seg # rest \<Rightarrow>
            (let end_seg = (case rest of [] \<Rightarrow> operator_value eq | e # es \<Rightarrow> e);
                 column = getattr model_db begin_seg
             in if end_seg = operator_value eq
                then Inr (add_where stmt (column_eq column v))
                else if end_seg = operator_value ilike
                then statement_filter stmt (column_method column ilike ''ilike'' v)
                else if end_seg = operator_value op_in
                then statement_filter stmt (column_method column op_in ''in_'' v)
                else if end_seg = operator_value gte
                then statement_filter stmt (column_compare column gte ''>='' v)
                else if end_seg = operator_value lte
                then statement_filter stmt (column_compare column lte ''<='' v)
                else if end_seg = operator_value gt
                then statement_filter stmt (column_compare column gt ''>'' v)
                else if end_seg = operator_value lt
                then statement_filter stmt (column_compare column lt ''<'' v)
                else Inl (HTTPException 422 UnsupportedSQLOperator))))"

fun filter_entries :: "model_class \<Rightarrow> statement \<Rightarrow> (string \<times> py_value) list \<Rightarrow> error + statement" where
  "filter_entries model_db stmt [] = Inr stmt"
| "filter_entries model_db stmt (entry # entries) =
     (case filter_entry model_db stmt entry of
        Inl e \<Rightarrow> Inl e
      | Inr stmt' \<Rightarrow> filter_entries model_db stmt' entries)"

text \<open>
  \<open>set_filters\<close>: the first loop calls \<open>v.isoformat()\<close> for every key that starts with
  \<open>created_at\<close> (only a datetime has that method) and its result \<open>new_dict\<close> is not used; the
  second loop runs over \<open>filters\<close>.
\<close>

definition set_filters :: "statement \<Rightarrow> model_class \<Rightarrow> (string \<times> py_value) list \<Rightarrow> error + statement" where
  "set_filters stmt model_db filters =
     (if filters = [] then Inr stmt
      else (case find (\<lambda>(k, v). startswith k ''created_at'' \<and> \<not> is_datetime v) filters of
              Some entry \<Rightarrow> Inl (AttributeError ''isoformat'')
            | None \<Rightarrow> filter_entries model_db stmt filters))"

text \<open>
  \<open>asc(column) if order == "asc" else desc(column)\<close> on an attribute that passed the test
  \<open>if not column\<close>. A string is taken as a text to resolve later, and an object that is
  no string is refused with \<open>ArgumentError\<close>.
\<close>

definition ordering_clause :: "attribute \<Rightarrow> string \<Rightarrow> error + ordering" where
  "ordering_clause column order =
     (case column of
        Column c \<Rightarrow> Inr (if order = ''asc'' then asc c else desc c)
      | StrAttribute s \<Rightarrow> Inr (if order = ''asc'' then asc_text s else desc_text s)
      | ObjectAttribute truth \<Rightarrow> Inl (ArgumentError (if order = ''asc'' then ''asc'' else ''desc'')))"

definition truthy :: "attribute option \<Rightarrow> bool" where
  "truthy column =
     (case column of
        None \<Rightarrow> False
      | Some (Column c) \<Rightarrow> True
      | Some (StrAttribute s) \<Rightarrow> s \<noteq> []
      | Some (ObjectAttribute truth) \<Rightarrow> truth)"

text \<open>
  \<open>apply_sorting\<close> on lists of columns and orders (the program passes it no single
  string). The last loop pairs each column with \<open>validated_sort_orders[idx]\<close>; the lists
  have the same length there.
\<close>

fun order_columns :: "model_class \<Rightarrow> statement \<Rightarrow> (string \<times> string) list \<Rightarrow> error + statement" where
  "order_columns model_db stmt [] = Inr stmt"
| "order_columns model_db stmt ((column_name, order) # rest) =
     (case getattr model_db column_name of
        None \<Rightarrow> Inl (ArgumentError column_name)
      | Some column \<Rightarrow>
          if truthy (Some column)
          then (case ordering_clause column order of
                  Inl e \<Rightarrow> Inl e
                | Inr clause \<Rightarrow> order_columns model_db (order_by stmt clause) rest)
          else Inl (ArgumentError column_name))"

definition apply_sorting :: "statement \<Rightarrow> model_class \<Rightarrow> string list \<Rightarrow> string list \<Rightarrow> error + statement" where
  "apply_sorting stmt model_db sort_columns sort_orders =
     (if sort_orders \<noteq> [] \<and> sort_columns = []
      then Inl (ValueError ''Sort orders provided without corresponding sort columns.'')
      else if sort_columns \<noteq> []
      then (if sort_orders \<noteq> [] \<and> length sort_columns \<noteq> length sort_orders
            then Inl (ValueError ''The length of sort_columns and sort_orders must match.'')
            else (case find (\<lambda>order. order \<notin> set [''asc'', ''desc'']) sort_orders of
                    Some order \<Rightarrow> Inl (ValueError ''Invalid sort order'')
                  | None \<Rightarrow>
                      (let validated_sort_orders =
                             (if sort_orders = [] then replicate (length sort_columns) ''asc''
                              else sort_orders)
                       in order_columns model_db stmt (zip sort_columns validated_sort_orders))))
      else Inr stmt)"

text \<open>
  A call with keyword arguments fails with \<open>TypeError\<close> when a keyword is not the name of
  a parameter of the function called.
\<close>

definition unexpected_keyword :: "string list \<Rightarrow> string list \<Rightarrow> string option" where
  "unexpected_keyword parameters keywords = find (\<lambda>k. k \<notin> set parameters) keywords"

definition apply_sorting_parameters :: "string list" where
  "apply_sorting_parameters = [''statement'', ''model_db'', ''sort_columns'', ''sort_orders'']"

text \<open>
  \<open>set_sorting\<close> calls \<open>apply_sorting(stmt=statement, model_db=..., sort_columns=...,
  sort_orders=...)\<close>.
\<close>

definition set_sorting :: "statement \<Rightarrow> model_class \<Rightarrow> string option \<Rightarrow> error + statement" where
  "set_sorting stmt model_db sort_param =
     (case sort_param of
        None \<Rightarrow> Inr stmt
      | Some s \<Rightarrow>
          (case (if s \<noteq> [] then parse_sort_string s else ([], [])) of
             (sort_columns, sort_orders) \<Rightarrow>
               (case unexpected_keyword apply_sorting_parameters
                       [''stmt'', ''model_db'', ''sort_columns'', ''sort_orders''] of
                  Some k \<Rightarrow> Inl (TypeError k)
                | None \<Rightarrow> apply_sorting stmt model_db sort_columns sort_orders)))"

section \<open>Rows, the session and the pager\<close>

text \<open>
  A row of a table built on \<open>SuperBase\<close>: the primary key and the status column (which the
  model declares nullable); the other columns are the extension of the record.
\<close>

record row =
  row_id :: int
  status_id :: "Status option"

text \<open>
  The session: the rows of the table, in the order the database returns them, and what
  SQLAlchemy and the database do on their own: the evaluation of a column predicate on a
  row, the evaluation of a list of ordering clauses on rows, and whether the text of an
  ordering clause resolves to something the statement selects.
\<close>

record 'a session =
  table_rows :: "'a row_scheme list"
  column_holds :: "'a row_scheme \<Rightarrow> string \<Rightarrow> SQLOperators \<Rightarrow> py_value \<Rightarrow> bool"
  ordered :: "ordering list \<Rightarrow> 'a row_scheme list \<Rightarrow> 'a row_scheme list"
  label_resolves :: "string \<Rightarrow> bool"

text \<open>In SQL a comparison with \<open>NULL\<close> is not true, so a row without status matches neither test.\<close>

definition holds :: "'a session \<Rightarrow> 'a row_scheme \<Rightarrow> condition \<Rightarrow> bool" where
  "holds sess r c =
     (case c of
        StatusEq s \<Rightarrow> status_id r = Some s
      | StatusNe s \<Rightarrow> (case status_id r of None \<Rightarrow> False | Some t \<Rightarrow> t \<noteq> s)
      | IdEq i \<Rightarrow> row_id r = i
      | ColumnOp column operator v \<Rightarrow> column_holds sess r column operator v
      | Literal b \<Rightarrow> b)"

definition matching :: "'a session \<Rightarrow> statement \<Rightarrow> 'a row_scheme list" where
  "matching sess stmt = filter (\<lambda>r. list_all (holds sess r) (whereclause stmt)) (table_rows sess)"

definition exec_all :: "'a session \<Rightarrow> statement \<Rightarrow> 'a row_scheme list" where
  "exec_all sess stmt =
     (let found = matching sess stmt;
          sorted_rows = (if order_by_clauses stmt = [] then found
                         else ordered sess (order_by_clauses stmt) found);
          skipped = (case offset_clause stmt of None \<Rightarrow> sorted_rows | Some n \<Rightarrow> drop (nat n) sorted_rows)
      in case limit_clause stmt of None \<Rightarrow> skipped | Some n \<Rightarrow> take (nat n) skipped)"

text \<open>
  \<open>session.exec(statement).first()\<close> for the lookups of delete and restore, whose
  statements have no ordering clause and no window.
\<close>

definition exec_first :: "'a session \<Rightarrow> statement \<Rightarrow> 'a row_scheme option" where
  "exec_first sess stmt = (case exec_all sess stmt of [] \<Rightarrow> None | r # rest \<Rightarrow> Some r)"

text \<open>\<open>select(func.count()).select_from(statement)\<close>: the number of rows of the statement.\<close>

definition exec_count :: "'a session \<Rightarrow> statement \<Rightarrow> int" where
  "exec_count sess stmt = int (length (exec_all sess stmt))"

text \<open>
  \<open>session.exec(statement)\<close>. The statement is compiled first, and an ordering clause on
  a text that does not resolve is refused (\<open>CompileError\<close>). The offset and the
  limit are then passed to the database driver, which takes them as signed 64-bit
  integers and refuses a value outside that range: sqlite3 raises \<open>OverflowError\<close>, and
  other drivers report the value out of range with an error of their own, which
  \<open>OverflowError\<close> stands for as well.
\<close>

definition fits_int64 :: "int \<Rightarrow> bool" where
  "fits_int64 n = (- (2 ^ 63) \<le> n \<and> n \<le> 2 ^ 63 - 1)"

definition bound_values :: "statement \<Rightarrow> int list" where
  "bound_values stmt =
     (case offset_clause stmt of None \<Rightarrow> [] | Some n \<Rightarrow> [n])
     @ (case limit_clause stmt of None \<Rightarrow> [] | Some n \<Rightarrow> [n])"

definition textual :: "ordering \<Rightarrow> string option" where
  "textual clause =
     (case clause of
        asc c \<Rightarrow> None | desc c \<Rightarrow> None | asc_text s \<Rightarrow> Some s | desc_text s \<Rightarrow> Some s)"

definition session_exec :: "'a session \<Rightarrow> statement \<Rightarrow> error + 'a row_scheme list" where
  "session_exec sess stmt =
     (case filter (\<lambda>s. \<not> label_resolves sess s) (List.map_filter textual (order_by_clauses stmt)) of
        s # others \<Rightarrow> Inl (CompileError s)
      | [] \<Rightarrow>
          if list_all fits_int64 (bound_values stmt) then Inr (exec_all sess stmt)
          else Inl OverflowError)"

definition session_get :: "'a session \<Rightarrow> int \<Rightarrow> 'a row_scheme option" where
  "session_get sess i = find (\<lambda>r. row_id r = i) (table_rows sess)"

text \<open>\<open>session.add(model_db); session.commit()\<close>: the row with that primary key is rewritten.\<close>

definition session_commit :: "'a session \<Rightarrow> int \<Rightarrow> 'a row_scheme \<Rightarrow> 'a session" where
  "session_commit sess i r' =
     sess\<lparr>table_rows := map (\<lambda>r. if row_id r = i then r' else r) (table_rows sess)\<rparr>"

record PaginationParams =
  page :: int
  per_page :: int

text \<open>The constraints \<open>ge=1\<close> and \<open>le=1000\<close> that the fields of \<open>PaginationParams\<close> declare.\<close>

definition valid_pagination :: "PaginationParams \<Rightarrow> bool" where
  "valid_pagination p = (1 \<le> page p \<and> 1 \<le> per_page p \<and> per_page p \<le> 1000)"

record CommonQueryParams =
  status :: Status
  sort_param :: "string option"
  pagination :: PaginationParams

text \<open>The defaults of the query parameters: what a request gets for those it does not supply.\<close>

definition query_params :: "Status option \<Rightarrow> string option \<Rightarrow> int option \<Rightarrow> int option \<Rightarrow> CommonQueryParams" where
  "query_params status_q sort_q page_q per_page_q =
     \<lparr>status = (case status_q of None \<Rightarrow> active | Some s \<Rightarrow> s),
      sort_param = sort_q,
      pagination = \<lparr>page = (case page_q of None \<Rightarrow> 1 | Some n \<Rightarrow> n),
                    per_page = (case per_page_q of None \<Rightarrow> 50 | Some n \<Rightarrow> n)\<rparr>\<rparr>"

record 'r PaginatedResponse =
  data :: "'r list"
  response_page :: int
  response_per_page :: int
  total_records :: int
  pages :: int

definition set_offset_limit :: "'a session \<Rightarrow> PaginationParams \<Rightarrow> statement \<Rightarrow> error + 'a row_scheme PaginatedResponse" where
  "set_offset_limit sess pagination_params stmt =
     (case session_exec sess stmt of
        Inl e \<Rightarrow> Inl e
      | Inr counted \<Rightarrow>
          (let total = int (length counted)
           in if per_page pagination_params = 0 then Inl ZeroDivisionError
              else (let n_pages = (total + per_page pagination_params - 1) div per_page pagination_params;
                        offset = (page pagination_params - 1) * per_page pagination_params;
                        stmt' = stmt\<lparr>offset_clause := Some offset,
                                     limit_clause := Some (per_page pagination_params)\<rparr>
                    in case session_exec sess stmt' of
                         Inl e \<Rightarrow> Inl e
                       | Inr result \<Rightarrow>
                           Inr \<lparr>data = result,
                                response_page = page pagination_params,
                                response_per_page = per_page pagination_params,
                                total_records = total,
                                pages = n_pages\<rparr>)))"

section \<open>The handlers (generator.py)\<close>

definition get_one :: "'a session \<Rightarrow> int \<Rightarrow> error + 'a row_scheme" where
  "get_one sess i =
     (case session_get sess i of
        None \<Rightarrow> Inl (HTTPException 403 (IdNotFound i))
      | Some model_db \<Rightarrow> Inr model_db)"

text \<open>
  \<open>_get_list\<close>, with the statement it composes as a function of its own: status, then
  filters, then sorting.
\<close>

definition list_statement :: "model_class \<Rightarrow> CommonQueryParams \<Rightarrow> (string \<times> py_value) list \<Rightarrow> error + statement" where
  "list_statement model_db params filters =
     (case set_filters (set_status select model_db (status params)) model_db filters of
        Inl e \<Rightarrow> Inl e
      | Inr stmt \<Rightarrow> set_sorting stmt model_db (sort_param params))"

definition get_list :: "'a session \<Rightarrow> model_class \<Rightarrow> CommonQueryParams \<Rightarrow> (string \<times> py_value) list \<Rightarrow> error + 'a row_scheme PaginatedResponse" where
  "get_list sess model_db params filters =
     (case list_statement model_db params filters of
        Inl e \<Rightarrow> Inl e
      | Inr stmt \<Rightarrow> set_offset_limit sess (pagination params) stmt)"

text \<open>
  \<open>_update_one\<close>: \<open>update\<close> stands for \<open>sqlmodel_update\<close> with the data of the body followed
  by the commit, and is \<open>None\<close> when one of them raises.
\<close>

definition update_one :: "'a session \<Rightarrow> ('a row_scheme \<Rightarrow> 'a row_scheme option) \<Rightarrow> int \<Rightarrow> error + 'a row_scheme \<times> 'a session" where
  "update_one sess update i =
     (case session_get sess i of
        None \<Rightarrow> Inl (HTTPException 403 (IdNotFound i))
      | Some model_db \<Rightarrow>
          (case update model_db of
             None \<Rightarrow> Inl (HTTPException 422 ErrorDuringUpdating)
           | Some model_db' \<Rightarrow> Inr (model_db', session_commit sess i model_db')))"

definition delete_one :: "'a session \<Rightarrow> int \<Rightarrow> error + 'a row_scheme \<times> 'a session" where
  "delete_one sess i =
     (case exec_first sess (add_where (add_where select (IdEq i)) (StatusNe deleted)) of
        None \<Rightarrow> Inl (HTTPException 404 (IdDoesntExist i))
      | Some model_db \<Rightarrow>
          (let model_db' = model_db\<lparr>status_id := Some deleted\<rparr>
           in Inr (model_db', session_commit sess i model_db')))"

definition restore_one :: "'a session \<Rightarrow> int \<Rightarrow> error + 'a row_scheme \<times> 'a session" where
  "restore_one sess i =
     (case exec_first sess (add_where (add_where select (IdEq i)) (StatusEq deleted)) of
        None \<Rightarrow> Inl (HTTPException 404 (IdDoesntExistToRestore i))
      | Some model_db \<Rightarrow>
          (let model_db' = model_db\<lparr>status_id := Some active\<rparr>
           in Inr (model_db', session_commit sess i model_db')))"

section \<open>An example table\<close>

text \<open>
  The table \<open>City\<close> of models.py: the columns of \<open>CityBase\<close> and of \<open>SuperBase\<close>. SQLModel
  stores a \<open>str\<close> field as \<open>AutoString\<close>, and the enumeration of \<open>status_id\<close> as a
  subclass of \<open>String\<close>. Of the other attributes of the class, the table name that SQLModel
  derives from the class name and two of the methods the handlers call are listed.
\<close>

definition City :: model_class where
  "City =
     \<lparr>name = ''City'',
      columns =
        [(''name'', AutoString), (''region_id'', Integer), (''id'', Integer),
         (''created_at'', DateTime), (''created_by'', Integer), (''updated_at'', DateTime),
         (''updated_by'', Integer), (''status_id'', String)],
      other_attributes =
        [(''__tablename__'', StrAttribute ''city''),
         (''model_validate'', ObjectAttribute True),
         (''sqlmodel_update'', ObjectAttribute True)]\<rparr>"

text \<open>
  A session on three rows, one in each status, whose database accepts every column
  predicate and keeps the order, and where no text resolves.
\<close>

definition three_rows :: "unit session" where
  "three_rows =
     \<lparr>table_rows =
        [\<lparr>row_id = 1, status_id = Some active\<rparr>,
         \<lparr>row_id = 2, status_id = Some deleted\<rparr>,
         \<lparr>row_id = 3, status_id = Some inactive\<rparr>],
      column_holds = (\<lambda>r column operator v. True),
      ordered = (\<lambda>clauses rs. rs),
      label_resolves = (\<lambda>s. False)\<rparr>"

section \<open>The sort directives, as the specification words them\<close>

text \<open>
  The directives of one trimmed token: none for an empty token or for the token \<open>-\<close>, the
  rest of the token (trimmed) in descending order after a leading \<open>-\<close>, and the token
  itself in ascending order otherwise.
\<close>

definition token_directive :: "string \<Rightarrow> (string \<times> string) list" where
  "token_directive t =
     (if t = [] then []
      else if hd t = CHR ''-'' then (if t = ''-'' then [] else [(strip (tl t), ''desc'')])
      else [(t, ''asc'')])"

text \<open>Split on commas, trim each token, one token after the other in the order of the input.\<close>

definition sort_directives :: "string \<Rightarrow> (string \<times> string) list" where
  "sort_directives s = concat (map (\<lambda>token. token_directive (strip token)) (py_split s '',''))"

section \<open>Notions for the statements about the generated function\<close>

text \<open>The key a statement of the generated body assigns to.\<close>

definition stmt_key :: "gen_stmt \<Rightarrow> string" where
  "stmt_key stmt =
     (case stmt of IfLike p k \<Rightarrow> k | IfInInt p k \<Rightarrow> k | IfInStr p k \<Rightarrow> k | IfNotNone p k \<Rightarrow> k)"

text \<open>The keys of a dictionary.\<close>

definition dict_keys :: "(string \<times> 'v) list \<Rightarrow> string set" where
  "dict_keys d = fst ` set d"

text \<open>
  The dependency \<open>Depends(create_filter_dependency(self.model_db, exclude_fields))\<close> of the
  list handler: the function is generated for the model, and run on the arguments of the
  request.
\<close>

definition collect_filters :: "model_class \<Rightarrow> (string \<Rightarrow> py_value option) \<Rightarrow> error + (string \<times> py_value) list" where
  "collect_filters model args =
     (case generate_filter_function model exclude_fields of
        Inl e \<Rightarrow> Inl e
      | Inr body \<Rightarrow> Inr (generated_filter_function body args))"

text \<open>The statements generated for a model assign to pairwise different keys.\<close>

definition distinct_keys :: "model_class \<Rightarrow> bool" where
  "distinct_keys model =
     (case generate_filter_function model exclude_fields of
        Inl e \<Rightarrow> False
      | Inr body \<Rightarrow> distinct (map stmt_key body))"

text \<open>
  A column name that the key format can carry: it does not contain \<open>__\<close> and does not end
  with \<open>_\<close>.
\<close>

fun contains_dunder :: "string \<Rightarrow> bool" where
  "contains_dunder [] = False"
| "contains_dunder (c # cs) = (take 2 (c # cs) = ''__'' \<or> contains_dunder cs)"

definition plain_name :: "string \<Rightarrow> bool" where
  "plain_name c = (\<not> contains_dunder c \<and> (c = [] \<or> last c \<noteq> CHR ''_''))"

text \<open>
  The two segments \<open>set_filters\<close> reads from a key: \<open>elems[0]\<close>, and \<open>elems[1]\<close> when the key
  splits into more than one element (\<open>eq\<close> otherwise); and the operators it accepts.
\<close>

definition column_segment :: "string \<Rightarrow> string" where
  "column_segment k = (case py_split k ''__'' of [] \<Rightarrow> [] | b # rest \<Rightarrow> b)"

definition operator_segment :: "string \<Rightarrow> string" where
  "operator_segment k = (case py_split k ''__'' of b # e # es \<Rightarrow> e | _ \<Rightarrow> operator_value eq)"

definition supported_operators :: "string list" where
  "supported_operators = map operator_value [eq, ilike, op_in, gte, lte, gt, lt]"

text \<open>A table with one text column whose name ends with an underscore.\<close>

definition Thing :: model_class where
  "Thing =
     \<lparr>name = ''Thing'', columns = [(''type_'', AutoString)],
      other_attributes = [(''__tablename__'', StrAttribute ''thing'')]\<rparr>"

section \<open>The column type classifier\<close>

text \<open>
  C9. A storage type outside the six mapped classes gets exactly the operator list
  \<open>[eq]\<close> and the native type \<open>str\<close>; the classifier is total, so it never fails. For
  every storage type the operator list is not empty and lies within the global operators.
\<close>

theorem classifier_fallback:
  "(T \<notin> {String, AutoString, Integer, Float, DateTime, Boolean} \<longrightarrow>
      get_operators_for_type T = [''eq''] \<and> get_python_type T = T_str)
   \<and> get_operators_for_type T \<noteq> []
   \<and> set (get_operators_for_type T) \<subseteq> set global_operators"
  by (cases T)
     (simp_all add: get_operators_for_type_def get_python_type_def TYPE_OPERATORS_def
        type_mapping_def isinstance_def global_operators_def OPERATOR_MAPPING_def)

theorem classifier_fallback_witness:
  "Other ''Uuid'' \<notin> {String, AutoString, Integer, Float, DateTime, Boolean}
   \<and> get_operators_for_type (Other ''Uuid'') = [''eq'']
   \<and> get_python_type (Other ''Uuid'') = T_str
   \<and> set (get_operators_for_type (Other ''Uuid'')) \<subseteq> set global_operators"
proof -
  have unmapped: "Other ''Uuid'' \<notin> {String, AutoString, Integer, Float, DateTime, Boolean}"
    by simp
  from classifier_fallback [of "Other ''Uuid''"] unmapped show ?thesis
    by blast
qed

section \<open>The pager\<close>

lemma ceiling_division:
  fixes t p :: int
  assumes "0 < p"
  shows "(t + p - 1) div p = \<lceil>real_of_int t / real_of_int p\<rceil>"
proof -
  define q where "q = (t + p - 1) div p"
  define r where "r = (t + p - 1) mod p"
  have r: "0 \<le> r" "r < p" using assms by (simp_all add: r_def)
  have eq: "t + p - 1 = q * p + r" by (simp add: q_def r_def)
  have up: "t \<le> q * p" using eq r by linarith
  have lo: "(q - 1) * p < t" using eq r by (simp add: algebra_simps)
  have p': "0 < real_of_int p" using assms by simp
  have "real_of_int t \<le> real_of_int (q * p)" using up by linarith
  then have a: "real_of_int t / real_of_int p \<le> real_of_int q"
    using p' by (simp add: pos_divide_le_eq)
  have "real_of_int ((q - 1) * p) < real_of_int t" using lo by linarith
  then have b: "real_of_int q - 1 < real_of_int t / real_of_int p"
    using p' by (simp add: pos_less_divide_eq)
  have "\<lceil>real_of_int t / real_of_int p\<rceil> = q"
    using a b by (intro ceiling_unique) simp_all
  then show ?thesis by (simp add: q_def)
qed

lemma no_pages_iff_no_records:
  fixes t p :: int
  assumes "0 < p" "0 \<le> t"
  shows "((t + p - 1) div p = 0) = (t = 0)"
proof
  assume q0: "(t + p - 1) div p = 0"
  have "t + p - 1 = ((t + p - 1) div p) * p + (t + p - 1) mod p" by simp
  with q0 have "t + p - 1 = (t + p - 1) mod p" by simp
  moreover have "(t + p - 1) mod p < p" using assms by simp
  ultimately have "t + p - 1 < p" by linarith
  with assms show "t = 0" by simp
next
  assume "t = 0"
  with assms show "(t + p - 1) div p = 0" by simp
qed

lemma session_exec_unwindowed:
  assumes "offset_clause stmt = None" and "limit_clause stmt = None"
    and "List.map_filter textual (order_by_clauses stmt) = []"
  shows "session_exec sess stmt = Inr (exec_all sess stmt)"
  using assms by (simp add: session_exec_def bound_values_def)

lemma session_exec_window:
  assumes "0 \<le> skip" and "1 \<le> width" and "width \<le> 1000"
    and "List.map_filter textual (order_by_clauses stmt) = []"
  shows "session_exec sess (stmt\<lparr>offset_clause := Some skip, limit_clause := Some width\<rparr>)
           = (if skip \<le> 2 ^ 63 - 1
              then Inr (exec_all sess (stmt\<lparr>offset_clause := Some skip, limit_clause := Some width\<rparr>))
              else Inl OverflowError)"
  using assms by (simp add: session_exec_def bound_values_def fits_int64_def)

text \<open>
  C3, amended. Take a page of at least 1, a page size between 1 and 1000, and a statement
  that has no window yet and no ordering clause on a text, as the list handler composes
  it. When the offset
  \<open>(page - 1) * per_page\<close> is at most \<open>2^63 - 1\<close>, the pager returns an envelope: its total
  is the count of the statement (never negative), its number of pages is the ceiling of
  total over page size and is 0 exactly when the total is 0, and its data are the rows
  of the statement windowed at that offset with limit \<open>per_page\<close>. When the offset is
  larger, the windowed query is refused and the pager raises \<open>OverflowError\<close>.
\<close>

theorem pager_envelope:
  assumes "1 \<le> page p" and "1 \<le> per_page p" and "per_page p \<le> 1000"
    and "offset_clause stmt = None" and "limit_clause stmt = None"
    and "List.map_filter textual (order_by_clauses stmt) = []"
  shows "((page p - 1) * per_page p \<le> 2 ^ 63 - 1 \<longrightarrow>
           (\<exists>e. set_offset_limit sess p stmt = Inr e
              \<and> total_records e = exec_count sess stmt
              \<and> 0 \<le> total_records e
              \<and> pages e = \<lceil>real_of_int (total_records e) / real_of_int (per_page p)\<rceil>
              \<and> (pages e = 0) = (total_records e = 0)
              \<and> data e = exec_all sess (stmt\<lparr>offset_clause := Some ((page p - 1) * per_page p),
                                                 limit_clause := Some (per_page p)\<rparr>)
              \<and> response_page e = page p \<and> response_per_page e = per_page p))
         \<and> (2 ^ 63 - 1 < (page p - 1) * per_page p \<longrightarrow>
              set_offset_limit sess p stmt = Inl OverflowError)"
proof -
  have pos: "0 < per_page p" using assms by simp
  have nonneg: "0 \<le> exec_count sess stmt" by (simp add: exec_count_def)
  have off: "0 \<le> (page p - 1) * per_page p" using assms by simp
  have count: "session_exec sess stmt = Inr (exec_all sess stmt)"
    using session_exec_unwindowed [OF assms(4,5,6)] .
  have window: "session_exec sess (stmt\<lparr>offset_clause := Some ((page p - 1) * per_page p),
                                         limit_clause := Some (per_page p)\<rparr>)
           = (if (page p - 1) * per_page p \<le> 2 ^ 63 - 1
              then Inr (exec_all sess (stmt\<lparr>offset_clause := Some ((page p - 1) * per_page p),
                                             limit_clause := Some (per_page p)\<rparr>))
              else Inl OverflowError)"
    using session_exec_window [OF off assms(2,3,6)] .
  show ?thesis
    using pos nonneg ceiling_division [OF pos, of "exec_count sess stmt"]
      no_pages_iff_no_records [OF pos nonneg] count window
    by (simp add: set_offset_limit_def Let_def exec_count_def)
qed

theorem pager_envelope_witness:
  "(\<exists>e. set_offset_limit three_rows \<lparr>page = 2, per_page = 2\<rparr> select = Inr e
       \<and> total_records e = 3
       \<and> pages e = \<lceil>real_of_int 3 / real_of_int 2\<rceil>
       \<and> data e = [\<lparr>row_id = 3, status_id = Some inactive\<rparr>])
   \<and> set_offset_limit three_rows \<lparr>page = 2 ^ 63 + 1, per_page = 1\<rparr> select = Inl OverflowError"
proof -
  have count: "exec_count three_rows select = 3"
    by (simp add: exec_count_def exec_all_def matching_def select_def three_rows_def)
  have window: "exec_all three_rows (select\<lparr>offset_clause := Some ((2 - 1) * 2), limit_clause := Some 2\<rparr>)
                  = [\<lparr>row_id = 3, status_id = Some inactive\<rparr>]"
    by (simp add: exec_all_def matching_def select_def three_rows_def)
  have plain: "offset_clause select = None" "limit_clause select = None"
    "List.map_filter textual (order_by_clauses select) = []"
    by (simp_all add: select_def List.map_filter_simps)
  have small: "(page \<lparr>page = 2, per_page = 2\<rparr> - 1) * per_page \<lparr>page = 2, per_page = 2\<rparr> \<le> 2 ^ 63 - 1"
    by simp
  from pager_envelope [where p = "\<lparr>page = 2, per_page = 2\<rparr>" and sess = three_rows
      and stmt = select, OF _ _ _ plain] small
  obtain e where "set_offset_limit three_rows \<lparr>page = 2, per_page = 2\<rparr> select = Inr e"
    and "total_records e = exec_count three_rows select"
    and "pages e = \<lceil>real_of_int (total_records e) / real_of_int 2\<rceil>"
    and "data e = exec_all three_rows (select\<lparr>offset_clause := Some ((2 - 1) * 2), limit_clause := Some 2\<rparr>)"
    by auto
  with count window
  have one: "\<exists>e. set_offset_limit three_rows \<lparr>page = 2, per_page = 2\<rparr> select = Inr e
       \<and> total_records e = 3
       \<and> pages e = \<lceil>real_of_int 3 / real_of_int 2\<rceil>
       \<and> data e = [\<lparr>row_id = 3, status_id = Some inactive\<rparr>]"
    by auto
  from pager_envelope [where p = "\<lparr>page = 2 ^ 63 + 1, per_page = 1\<rparr>" and sess = three_rows
      and stmt = select, OF _ _ _ plain]
  have two: "set_offset_limit three_rows \<lparr>page = 2 ^ 63 + 1, per_page = 1\<rparr> select = Inl OverflowError"
    by simp
  from one two show ?thesis by blast
qed

text \<open>
  The claim C3 at \<open>page = 10^19\<close> and \<open>per_page = 1\<close>, which the constraints of
  \<open>PaginationParams\<close> admit: the offset does not fit in 64 bits and the pager raises
  \<open>OverflowError\<close> instead of returning an envelope.
\<close>

theorem pager_overflow_counterexample:
  "valid_pagination \<lparr>page = 10000000000000000000, per_page = 1\<rparr>
   \<and> set_offset_limit three_rows \<lparr>page = 10000000000000000000, per_page = 1\<rparr> select
       = Inl OverflowError"
  by (simp add: valid_pagination_def set_offset_limit_def session_exec_def bound_values_def
      fits_int64_def select_def Let_def List.map_filter_simps)

section \<open>Sorting in the list handler\<close>

lemma set_sorting_raises:
  "set_sorting stmt model_db (Some s) = Inl (TypeError ''stmt'')"
  by (simp add: set_sorting_def unexpected_keyword_def apply_sorting_parameters_def
      split: prod.splits)

text \<open>
  C2. Whenever a list request carries a sort parameter, \<open>set_sorting\<close> calls
  \<open>apply_sorting\<close> with the keyword \<open>stmt\<close>, which is not one of its parameters: the call
  raises \<open>TypeError\<close>, no ordering clause is appended, and the request does not complete.
  So it is for \<open>sort=name\<close> on the table \<open>City\<close>.
\<close>

theorem list_with_sort_raises:
  "set_sorting stmt model_db (Some s) = Inl (TypeError ''stmt'')
   \<and> get_list sess City (query_params None (Some ''name'') None None) [] = Inl (TypeError ''stmt'')"
  by (simp add: set_sorting_raises get_list_def list_statement_def set_filters_def
      query_params_def)

section \<open>The sort expression parser\<close>

lemma all_dropWhile: "(\<forall>x \<in> set (dropWhile P s). P x) \<longleftrightarrow> (\<forall>x \<in> set s. P x)"
proof
  assume a: "\<forall>x \<in> set (dropWhile P s). P x"
  have "dropWhile P s = []"
  proof (rule ccontr)
    assume n: "dropWhile P s \<noteq> []"
    then have "\<not> P (hd (dropWhile P s))" by (rule hd_dropWhile)
    moreover have "hd (dropWhile P s) \<in> set (dropWhile P s)" using n by simp
    ultimately show False using a by blast
  qed
  then show "\<forall>x \<in> set s. P x" by (simp add: dropWhile_eq_Nil_conv)
next
  assume "\<forall>x \<in> set s. P x"
  then show "\<forall>x \<in> set (dropWhile P s). P x" by (auto dest: set_dropWhileD)
qed

lemma strip_Nil_iff: "strip s = [] \<longleftrightarrow> (\<forall>c \<in> set s. isspace c)"
  by (simp add: strip_def lstrip_def dropWhile_eq_Nil_conv all_dropWhile)

lemma strip_last: "strip s \<noteq> [] \<Longrightarrow> \<not> isspace (last (strip s))"
proof -
  assume a: "strip s \<noteq> []"
  let ?u = "dropWhile isspace (rev (dropWhile isspace s))"
  have "?u \<noteq> []" using a by (simp add: strip_def lstrip_def)
  then have "\<not> isspace (hd ?u)" by (rule hd_dropWhile)
  moreover have "last (strip s) = hd ?u"
    using \<open>?u \<noteq> []\<close> by (simp add: strip_def lstrip_def last_rev)
  ultimately show ?thesis by simp
qed

lemma strip_tl_nonempty:
  assumes "t \<noteq> []" "\<not> isspace (last t)" "tl t \<noteq> []"
  shows "strip (tl t) \<noteq> []"
proof -
  have "last (tl t) = last t" using assms by (simp add: last_tl)
  moreover have "last (tl t) \<in> set (tl t)" using assms by simp
  ultimately have "last (tl t) \<in> set (tl t)" "\<not> isspace (last (tl t))" using assms by simp_all
  then show ?thesis unfolding strip_Nil_iff by blast
qed

lemma comma_not_space: "\<not> isspace CHR '',''"
  by (simp add: isspace_def)

lemma py_split_no_sep:
  "CHR '','' \<notin> set s \<Longrightarrow> py_split s '','' = [s]"
  by (induction s) auto

lemma py_split_nonempty: "py_split s sep \<noteq> []"
  by (induction s sep rule: py_split.induct) (auto split: list.splits)

lemma sort_field_step_directive:
  assumes "f \<noteq> []" and "\<not> isspace (last f)"
  shows "sort_field_step (cs, os) f =
           (cs @ map fst (token_directive f), os @ map snd (token_directive f))"
proof (cases "hd f = CHR ''-''")
  case True
  then have sw: "startswith f ''-''" using assms(1) by (cases f) (simp_all add: startswith_def)
  have d: "drop 1 f = tl f" by (simp add: drop_Suc)
  show ?thesis
  proof (cases "f = ''-''")
    case True
    then show ?thesis
      by (simp add: sort_field_step_def token_directive_def startswith_def strip_def lstrip_def)
  next
    case False
    with True assms(1) have "tl f \<noteq> []" by (cases f) auto
    then have "strip (tl f) \<noteq> []" using assms by (intro strip_tl_nonempty)
    then show ?thesis using sw d True False assms(1)
      by (simp add: sort_field_step_def token_directive_def Let_def)
  qed
next
  case False
  then have "\<not> startswith f ''-''" using assms(1) by (cases f) (simp_all add: startswith_def)
  then show ?thesis using False assms(1)
    by (simp add: sort_field_step_def token_directive_def)
qed

lemma foldl_sort_field_step:
  assumes "\<forall>f \<in> set fs. f \<noteq> [] \<and> \<not> isspace (last f)"
  shows "foldl sort_field_step (cs, os) fs =
           (cs @ map fst (concat (map token_directive fs)),
            os @ map snd (concat (map token_directive fs)))"
  using assms
proof (induction fs arbitrary: cs os)
  case Nil
  then show ?case by simp
next
  case (Cons f fs)
  then show ?case by (simp add: sort_field_step_directive)
qed

lemma concat_directives_filter:
  "concat (map token_directive (map strip (filter (\<lambda>f. strip f \<noteq> []) toks)))
     = concat (map (\<lambda>token. token_directive (strip token)) toks)"
  by (induction toks) (simp_all add: token_directive_def)

lemma parse_sort_string_directives:
  "parse_sort_string s = (map fst (sort_directives s), map snd (sort_directives s))"
proof (cases "s = [] \<or> strip s = []")
  case True
  then have sp: "\<forall>c \<in> set s. isspace c" by (auto simp: strip_Nil_iff)
  then have "CHR '','' \<notin> set s" using comma_not_space by blast
  then have "py_split s '','' = [s]" by (rule py_split_no_sep)
  moreover have "strip s = []" using sp by (simp add: strip_Nil_iff)
  ultimately have "sort_directives s = []"
    by (simp add: sort_directives_def token_directive_def)
  then show ?thesis using True by (simp add: parse_sort_string_def)
next
  case False
  let ?toks = "py_split s '',''"
  let ?fields = "map strip (filter (\<lambda>f. strip f \<noteq> []) ?toks)"
  have ok: "\<forall>f \<in> set ?fields. f \<noteq> [] \<and> \<not> isspace (last f)"
    by (auto simp: strip_last)
  have "parse_sort_string s = foldl sort_field_step ([], []) ?fields"
    using False by (simp add: parse_sort_string_def)
  also have "\<dots> = (map fst (concat (map token_directive ?fields)),
                      map snd (concat (map token_directive ?fields)))"
    using foldl_sort_field_step [OF ok, of "[]" "[]"] by simp
  also have "concat (map token_directive ?fields) = sort_directives s"
    by (simp only: concat_directives_filter sort_directives_def)
  finally show ?thesis .
qed

lemma py_split_comma_append:
  "py_split (a @ CHR '','' # b) '','' = py_split a '','' @ py_split b '',''"
proof (induction a)
  case Nil
  then show ?case by simp
next
  case (Cons c a)
  have ne: "py_split a '','' \<noteq> []" by (rule py_split_nonempty)
  show ?case
  proof (cases "c = CHR '',''")
    case True
    then show ?thesis using Cons by simp
  next
    case False
    then show ?thesis using Cons ne by (cases "py_split a '',''") simp_all
  qed
qed

lemma sort_directives_append:
  "sort_directives (a @ CHR '','' # b) = sort_directives a @ sort_directives b"
  by (simp add: sort_directives_def py_split_comma_append)

text \<open>
  C7. The parser yields the directives of the specification: the input is split on
  commas, each token is trimmed, an empty token and a token that is only \<open>-\<close> give
  nothing, a leading \<open>-\<close> gives descending order and is removed before the column name is
  taken, every other token is a column in ascending order. The directives of
  \<open>a,b\<close> are those of \<open>a\<close> followed by those of \<open>b\<close>, so the order of the input is kept and
  nothing is merged. The empty string and \<open>-\<close> give no directive, and \<open>a,-b,c\<close> gives
  \<open>a\<close> ascending, \<open>b\<close> descending, \<open>c\<close> ascending.
\<close>

theorem sort_parser_directives:
  "parse_sort_string s = (map fst (sort_directives s), map snd (sort_directives s))
   \<and> sort_directives (a @ '','' @ b) = sort_directives a @ sort_directives b
   \<and> parse_sort_string '''' = ([], [])
   \<and> parse_sort_string ''-'' = ([], [])
   \<and> parse_sort_string ''a,-b,c'' = ([''a'', ''b'', ''c''], [''asc'', ''desc'', ''asc''])"
proof -
  have e1: "parse_sort_string '''' = ([], [])" by (simp add: parse_sort_string_def)
  have e2: "parse_sort_string ''-'' = ([], [])" by code_simp
  have e3: "parse_sort_string ''a,-b,c'' = ([''a'', ''b'', ''c''], [''asc'', ''desc'', ''asc''])"
    by code_simp
  show ?thesis
    using parse_sort_string_directives [of s] sort_directives_append [of a b] e1 e2 e3
    by simp
qed

section \<open>The filter parameter synthesizer\<close>

lemma map_of_dict_set:
  "map_of (dict_set k v d) k' = (if k' = k then Some v else map_of d k')"
  by (induction d) auto

lemma dict_keys_dict_set: "dict_keys (dict_set k v d) = insert k (dict_keys d)"
proof (induction d)
  case Nil
  then show ?case by (simp add: dict_keys_def)
next
  case (Cons kv d)
  obtain k' v' where kv: "kv = (k', v')" by (cases kv)
  from Cons show ?case unfolding kv dict_keys_def by (cases "k' = k") auto
qed

lemma dict_keys_map_of: "(k \<in> dict_keys d) = (map_of d k \<noteq> None)"
  by (simp add: dict_keys_def map_of_eq_None_iff)

lemma run_stmt_cases:
  "run_stmt args d stmt = d \<or> (\<exists>v. run_stmt args d stmt = dict_set (stmt_key stmt) v d)"
  by (cases stmt) (auto simp: run_stmt_def stmt_key_def split: option.splits py_value.splits)

lemma map_of_run_stmt_other:
  "k \<noteq> stmt_key stmt \<Longrightarrow> map_of (run_stmt args d stmt) k = map_of d k"
  using run_stmt_cases [of args d stmt] by (auto simp: map_of_dict_set)

lemma dict_keys_run_stmt:
  "dict_keys (run_stmt args d stmt) \<subseteq> insert (stmt_key stmt) (dict_keys d)"
  using run_stmt_cases [of args d stmt] by (auto simp: dict_keys_dict_set)

lemma map_of_foldl_run_stmt_other:
  "k \<notin> stmt_key ` set body \<Longrightarrow> map_of (foldl (run_stmt args) d body) k = map_of d k"
  by (induction body arbitrary: d) (simp_all add: map_of_run_stmt_other)

lemma dict_keys_foldl_run_stmt:
  "dict_keys (foldl (run_stmt args) d body) \<subseteq> dict_keys d \<union> stmt_key ` set body"
proof (induction body arbitrary: d)
  case Nil
  then show ?case by simp
next
  case (Cons s body)
  have "dict_keys (foldl (run_stmt args) (run_stmt args d s) body)
          \<subseteq> dict_keys (run_stmt args d s) \<union> stmt_key ` set body"
    by (rule Cons.IH)
  with dict_keys_run_stmt [of args d s] show ?case by auto
qed

text \<open>
  When the statements of the body assign to different keys, the value of a statement's key
  in the result is what that statement alone leaves in an empty dictionary.
\<close>

lemma map_of_foldl_run_stmt:
  assumes "distinct (map stmt_key body)" and "stmt \<in> set body"
  shows "map_of (foldl (run_stmt args) d body) (stmt_key stmt)
           = map_of (run_stmt args d stmt) (stmt_key stmt)"
  using assms
proof (induction body arbitrary: d)
  case Nil
  then show ?case by simp
next
  case (Cons s body)
  show ?case
  proof (cases "stmt = s")
    case True
    with Cons.prems have "stmt_key stmt \<notin> stmt_key ` set body" by auto
    then show ?thesis using True by (simp add: map_of_foldl_run_stmt_other)
  next
    case False
    with Cons.prems have mem: "stmt \<in> set body" and d: "distinct (map stmt_key body)"
      and fresh: "stmt_key s \<notin> stmt_key ` set body" by auto
    from mem fresh have ne: "stmt_key stmt \<noteq> stmt_key s" by (metis imageI)
    have "map_of (foldl (run_stmt args) (run_stmt args d s) body) (stmt_key stmt)
            = map_of (run_stmt args (run_stmt args d s) stmt) (stmt_key stmt)"
      using Cons.IH [OF d mem] .
    also have "\<dots> = map_of (run_stmt args d stmt) (stmt_key stmt)"
      using run_stmt_cases [of args "run_stmt args d s" stmt] run_stmt_cases [of args d stmt]
        map_of_run_stmt_other [OF ne, of args d]
      apply (cases stmt)
      apply (auto simp: run_stmt_def stmt_key_def map_of_dict_set split: option.splits py_value.splits)
      done
    finally show ?thesis by simp
  qed
qed

lemma gen_stmt_for_total:
  assumes "operator \<in> set global_operators"
  shows "\<exists>s. gen_stmt_for f t operator = Inr s"
  using assms
  by (auto simp: gen_stmt_for_def global_operators_def OPERATOR_MAPPING_def Let_def)

lemma gen_stmts_total:
  assumes "set ops \<subseteq> set global_operators"
  shows "\<exists>ss. gen_stmts f t ops = Inr ss
           \<and> (\<forall>s. s \<in> set ss \<longleftrightarrow> (\<exists>operator \<in> set ops. gen_stmt_for f t operator = Inr s))"
  using assms
proof (induction ops)
  case Nil
  then show ?case by simp
next
  case (Cons operator ops)
  then obtain ss where ss: "gen_stmts f t ops = Inr ss"
    and mem: "\<forall>s. s \<in> set ss \<longleftrightarrow> (\<exists>operator \<in> set ops. gen_stmt_for f t operator = Inr s)"
    by auto
  from Cons.prems obtain s0 where s0: "gen_stmt_for f t operator = Inr s0"
    using gen_stmt_for_total [of operator f t] by auto
  have "gen_stmts f t (operator # ops) = Inr (s0 # ss)" using ss s0 by simp
  moreover have "\<forall>s. s \<in> set (s0 # ss)
                   \<longleftrightarrow> (\<exists>o' \<in> set (operator # ops). gen_stmt_for f t o' = Inr s)"
    using mem s0 by auto
  ultimately show ?case by blast
qed

lemma operators_global: "set (get_operators_for_type t) \<subseteq> set global_operators"
  by (cases t)
     (simp_all add: get_operators_for_type_def TYPE_OPERATORS_def isinstance_def
        global_operators_def OPERATOR_MAPPING_def)

text \<open>Generation never fails, and the body holds one statement for each column and operator.\<close>

lemma gen_body_total:
  "\<exists>body. gen_body model_fields = Inr body
     \<and> (\<forall>s. s \<in> set body \<longleftrightarrow>
            (\<exists>(f, t) \<in> set model_fields. \<exists>operator \<in> set (get_operators_for_type t).
               gen_stmt_for f t operator = Inr s))"
proof (induction model_fields)
  case Nil
  then show ?case by simp
next
  case (Cons field model_fields)
  obtain f t where field: "field = (f, t)" by (cases field)
  from Cons obtain rest where rest: "gen_body model_fields = Inr rest"
    and mem: "\<forall>s. s \<in> set rest \<longleftrightarrow>
            (\<exists>(f, t) \<in> set model_fields. \<exists>operator \<in> set (get_operators_for_type t).
               gen_stmt_for f t operator = Inr s)"
    by auto
  obtain ss where ss: "gen_stmts f t (get_operators_for_type t) = Inr ss"
    and mem_ss: "\<forall>s. s \<in> set ss \<longleftrightarrow>
            (\<exists>operator \<in> set (get_operators_for_type t). gen_stmt_for f t operator = Inr s)"
    using gen_stmts_total [OF operators_global [of t], of f t] by auto
  have "gen_body (field # model_fields) = Inr (ss @ rest)"
    using rest ss field by simp
  moreover have "\<forall>s. s \<in> set (ss @ rest) \<longleftrightarrow>
            (\<exists>(f, t) \<in> set (field # model_fields). \<exists>operator \<in> set (get_operators_for_type t).
               gen_stmt_for f t operator = Inr s)"
    using mem mem_ss field by auto
  ultimately show ?case by blast
qed

lemma generate_filter_function_total:
  "\<exists>body. generate_filter_function model excluded = Inr body"
  using gen_body_total [of "get_model_fields model excluded"]
  by (auto simp: generate_filter_function_def)

lemma generated_stmt_mem:
  assumes "generate_filter_function model excluded = Inr body"
    and "(f, t) \<in> set (columns model)" and "f \<notin> set excluded"
    and "operator \<in> set (get_operators_for_type t)"
    and "gen_stmt_for f t operator = Inr s"
  shows "s \<in> set body"
proof -
  have "(f, t) \<in> set (get_model_fields model excluded)"
    using assms(2,3) by (simp add: get_model_fields_def)
  then show ?thesis
    using gen_body_total [of "get_model_fields model excluded"] assms(1,4,5)
    by (auto simp: generate_filter_function_def)
qed

lemma generated_stmt_origin:
  assumes "generate_filter_function model excluded = Inr body" and "s \<in> set body"
  shows "\<exists>(f, t) \<in> set (get_model_fields model excluded).
           \<exists>operator \<in> set (get_operators_for_type t). gen_stmt_for f t operator = Inr s"
  using gen_body_total [of "get_model_fields model excluded"] assms
  by (auto simp: generate_filter_function_def)

lemma like_stmt:
  assumes "t = String \<or> t = AutoString"
  shows "''like'' \<in> set (get_operators_for_type t)
         \<and> gen_stmt_for f t ''like'' = Inr (IfLike (''filter_'' @ f @ ''_like'') (f @ ''__ilike''))"
  using assms
  by (auto simp: get_operators_for_type_def TYPE_OPERATORS_def isinstance_def gen_stmt_for_def
      OPERATOR_MAPPING_def Let_def)

lemma in_int_stmt:
  "''in'' \<in> set (get_operators_for_type Integer)
   \<and> gen_stmt_for f Integer ''in'' = Inr (IfInInt (''filter_'' @ f @ ''_in'') (f @ ''__in''))"
  by (auto simp: get_operators_for_type_def TYPE_OPERATORS_def isinstance_def gen_stmt_for_def
      OPERATOR_MAPPING_def Let_def get_python_type_def type_mapping_def)

lemma those_map_None:
  "(those (map g xs) = None) = (\<exists>x \<in> set xs. g x = None)"
  by (induction xs) (auto split: option.splits)

lemma those_map_Some:
  "\<forall>x \<in> set xs. g x \<noteq> None \<Longrightarrow> those (map g xs) = Some (map (\<lambda>x. the (g x)) xs)"
  by (induction xs) (auto split: option.splits)

lemma collect_filters_body:
  "generate_filter_function model exclude_fields = Inr body \<Longrightarrow>
     collect_filters model args = Inr (generated_filter_function body args)"
  by (simp add: collect_filters_def)

lemma generated_lookup:
  assumes "distinct (map stmt_key body)" and "s \<in> set body"
  shows "map_of (generated_filter_function body args) (stmt_key s)
           = map_of (run_stmt args [] s) (stmt_key s)"
  using map_of_foldl_run_stmt [OF assms, of args "[]"]
  by (simp add: generated_filter_function_def)

text \<open>
  C6, amended. For a text column (\<open>String\<close> or \<open>AutoString\<close>) generation succeeds and the
  body holds the \<open>like\<close> statement of the column, whose key is the column name followed by
  \<open>__ilike\<close>. Run on a parameter that is provided and not empty, the statement stores the
  raw value between two percent signs under that key; run on a parameter that is absent
  or empty, it leaves the dictionary as it is. When the statements of the body assign to
  different keys, the mapping the function returns holds that entry in the first case and
  has no such key in the second.
\<close>

theorem like_filter_entry:
  assumes "(f, t) \<in> set (columns model)" and "f \<notin> set exclude_fields"
    and "t = String \<or> t = AutoString"
  shows "\<exists>body. generate_filter_function model exclude_fields = Inr body
           \<and> collect_filters model args = Inr (generated_filter_function body args)
           \<and> IfLike (''filter_'' @ f @ ''_like'') (f @ ''__ilike'') \<in> set body
           \<and> (args (''filter_'' @ f @ ''_like'') = Some (PyStr v) \<and> v \<noteq> [] \<longrightarrow>
                run_stmt args d (IfLike (''filter_'' @ f @ ''_like'') (f @ ''__ilike''))
                  = dict_set (f @ ''__ilike'') (PyStr (''%'' @ v @ ''%'')) d
                \<and> (distinct (map stmt_key body) \<longrightarrow>
                     map_of (generated_filter_function body args) (f @ ''__ilike'')
                       = Some (PyStr (''%'' @ v @ ''%''))))
           \<and> (args (''filter_'' @ f @ ''_like'') = None
                \<or> args (''filter_'' @ f @ ''_like'') = Some (PyStr []) \<longrightarrow>
                run_stmt args d (IfLike (''filter_'' @ f @ ''_like'') (f @ ''__ilike'')) = d
                \<and> (distinct (map stmt_key body) \<longrightarrow>
                     f @ ''__ilike'' \<notin> dict_keys (generated_filter_function body args)))"
proof -
  let ?p = "''filter_'' @ f @ ''_like''"
  let ?k = "f @ ''__ilike''"
  let ?s = "IfLike ?p ?k"
  obtain body where body: "generate_filter_function model exclude_fields = Inr body"
    using generate_filter_function_total by blast
  have like: "''like'' \<in> set (get_operators_for_type t)" "gen_stmt_for f t ''like'' = Inr ?s"
    using like_stmt [OF assms(3), of f] by simp_all
  have mem: "?s \<in> set body" using generated_stmt_mem [OF body assms(1,2) like] .
  have key: "stmt_key ?s = ?k" by (simp add: stmt_key_def)
  have look: "distinct (map stmt_key body) \<Longrightarrow>
                map_of (generated_filter_function body args) ?k = map_of (run_stmt args [] ?s) ?k"
    using generated_lookup [OF _ mem, of args] key by simp
  have given: "args ?p = Some (PyStr v) \<and> v \<noteq> [] \<longrightarrow>
                run_stmt args d ?s = dict_set ?k (PyStr (''%'' @ v @ ''%'')) d
                \<and> (distinct (map stmt_key body) \<longrightarrow>
                     map_of (generated_filter_function body args) ?k
                       = Some (PyStr (''%'' @ v @ ''%'')))"
    using look by (simp add: run_stmt_def)
  have absent: "args ?p = None \<or> args ?p = Some (PyStr []) \<longrightarrow>
                run_stmt args d ?s = d
                \<and> (distinct (map stmt_key body) \<longrightarrow>
                     ?k \<notin> dict_keys (generated_filter_function body args))"
    using look by (auto simp: run_stmt_def dict_keys_map_of)
  show ?thesis
    using body collect_filters_body [OF body, of args] mem given absent by blast
qed

text \<open>
  C4. For an \<open>Integer\<close> column and an \<open>in\<close> parameter that is provided and not empty,
  generation succeeds, collecting returns a mapping (no error), and the body holds the
  \<open>in\<close> statement of the column with the key \<open>column__in\<close>. The raw string is split on
  commas and each element is trimmed and read as an integer. When one element cannot be
  read, the statement leaves the dictionary as it is, and the mapping returned has no key
  \<open>column__in\<close> (when the statements of the body assign to different keys, so that no
  other parameter writes it). When all can be read, the key holds the list of the
  integers, in order.
\<close>

theorem in_filter_integer:
  assumes "(f, Integer) \<in> set (columns model)" and "f \<notin> set exclude_fields"
    and "args (''filter_'' @ f @ ''_in'') = Some (PyStr s)" and "s \<noteq> []"
  shows "\<exists>body. generate_filter_function model exclude_fields = Inr body
           \<and> collect_filters model args = Inr (generated_filter_function body args)
           \<and> IfInInt (''filter_'' @ f @ ''_in'') (f @ ''__in'') \<in> set body
           \<and> ((\<exists>x \<in> set (py_split s '',''). py_int (strip x) = None) \<longrightarrow>
                run_stmt args d (IfInInt (''filter_'' @ f @ ''_in'') (f @ ''__in'')) = d
                \<and> (distinct (map stmt_key body) \<longrightarrow>
                     f @ ''__in'' \<notin> dict_keys (generated_filter_function body args)))
           \<and> ((\<forall>x \<in> set (py_split s '',''). py_int (strip x) \<noteq> None) \<longrightarrow>
                run_stmt args d (IfInInt (''filter_'' @ f @ ''_in'') (f @ ''__in''))
                  = dict_set (f @ ''__in'')
                      (PyList (map (\<lambda>x. PyInt (the (py_int (strip x)))) (py_split s '',''))) d
                \<and> (distinct (map stmt_key body) \<longrightarrow>
                     map_of (generated_filter_function body args) (f @ ''__in'')
                       = Some (PyList (map (\<lambda>x. PyInt (the (py_int (strip x)))) (py_split s '','')))))"
proof -
  let ?p = "''filter_'' @ f @ ''_in''"
  let ?k = "f @ ''__in''"
  let ?s = "IfInInt ?p ?k"
  let ?ints = "PyList (map (\<lambda>x. PyInt (the (py_int (strip x)))) (py_split s '',''))"
  obtain body where body: "generate_filter_function model exclude_fields = Inr body"
    using generate_filter_function_total by blast
  have stmt: "''in'' \<in> set (get_operators_for_type Integer)"
    "gen_stmt_for f Integer ''in'' = Inr ?s"
    using in_int_stmt [of f] by simp_all
  have mem: "?s \<in> set body" using generated_stmt_mem [OF body assms(1,2) stmt] .
  have key: "stmt_key ?s = ?k" by (simp add: stmt_key_def)
  have look: "distinct (map stmt_key body) \<Longrightarrow>
                map_of (generated_filter_function body args) ?k = map_of (run_stmt args [] ?s) ?k"
    using generated_lookup [OF _ mem, of args] key by simp
  have fail: "(\<exists>x \<in> set (py_split s '',''). py_int (strip x) = None) \<longrightarrow>
                run_stmt args d ?s = d
                \<and> (distinct (map stmt_key body) \<longrightarrow>
                     ?k \<notin> dict_keys (generated_filter_function body args))"
  proof
    assume "\<exists>x \<in> set (py_split s '',''). py_int (strip x) = None"
    then have none: "those (map (\<lambda>x. py_int (strip x)) (py_split s '','')) = None"
      by (simp add: those_map_None)
    have run: "\<And>d'. run_stmt args d' ?s = d'"
      using none assms(3,4) by (simp add: run_stmt_def)
    show "run_stmt args d ?s = d
            \<and> (distinct (map stmt_key body) \<longrightarrow>
                 ?k \<notin> dict_keys (generated_filter_function body args))"
      using run look by (simp add: dict_keys_map_of)
  qed
  have ok: "(\<forall>x \<in> set (py_split s '',''). py_int (strip x) \<noteq> None) \<longrightarrow>
                run_stmt args d ?s = dict_set ?k ?ints d
                \<and> (distinct (map stmt_key body) \<longrightarrow>
                     map_of (generated_filter_function body args) ?k = Some ?ints)"
  proof
    assume "\<forall>x \<in> set (py_split s '',''). py_int (strip x) \<noteq> None"
    then have some: "those (map (\<lambda>x. py_int (strip x)) (py_split s '',''))
                 = Some (map (\<lambda>x. the (py_int (strip x))) (py_split s '',''))"
      by (rule those_map_Some)
    have run: "\<And>d'. run_stmt args d' ?s = dict_set ?k ?ints d'"
      using some assms(3,4) by (simp add: run_stmt_def comp_def)
    show "run_stmt args d ?s = dict_set ?k ?ints d
            \<and> (distinct (map stmt_key body) \<longrightarrow>
                 map_of (generated_filter_function body args) ?k = Some ?ints)"
      using run look by simp
  qed
  show ?thesis
    using body collect_filters_body [OF body, of args] mem fail ok by blast
qed

lemma City_body:
  "generate_filter_function City exclude_fields =
     Inr [IfNotNone ''filter_name_eq'' ''name'',
          IfLike ''filter_name_like'' ''name__ilike'',
          IfInStr ''filter_name_in'' ''name__in'',
          IfNotNone ''filter_region_id_eq'' ''region_id'',
          IfInInt ''filter_region_id_in'' ''region_id__in'',
          IfNotNone ''filter_id_eq'' ''id'',
          IfInInt ''filter_id_in'' ''id__in'',
          IfNotNone ''filter_created_at_gte'' ''created_at__gte'',
          IfNotNone ''filter_created_at_lte'' ''created_at__lte'',
          IfNotNone ''filter_created_at_gt'' ''created_at__gt'',
          IfNotNone ''filter_created_at_lt'' ''created_at__lt'']"
  by code_simp

lemma City_distinct_keys: "distinct_keys City"
  by (simp add: distinct_keys_def City_body stmt_key_def)

text \<open>The value \<open>1,2,x\<close> for the \<open>id\<close> column of \<open>City\<close>: no key \<open>id__in\<close> is emitted.\<close>

theorem in_filter_integer_witness:
  "collect_filters City (map_of [(''filter_id_in'', PyStr ''1,2,x'')]) = Inr []
   \<and> (\<exists>body. generate_filter_function City exclude_fields = Inr body
         \<and> IfInInt ''filter_id_in'' ''id__in'' \<in> set body
         \<and> ''id__in'' \<notin> dict_keys (generated_filter_function body (map_of [(''filter_id_in'', PyStr ''1,2,x'')])))"
proof -
  let ?args = "map_of [(''filter_id_in'', PyStr ''1,2,x'')]"
  have c: "(''id'', Integer) \<in> set (columns City)" by (simp add: City_def)
  have e: "''id'' \<notin> set exclude_fields" by (simp add: exclude_fields_def)
  have a: "?args (''filter_'' @ ''id'' @ ''_in'') = Some (PyStr ''1,2,x'')"
    by simp
  have n: "''1,2,x'' \<noteq> []" by simp
  have elems: "py_split ''1,2,x'' '','' = [''1'', ''2'', ''x'']" by code_simp
  have "py_int (strip ''x'') = None" by code_simp
  then have bad: "\<exists>x \<in> set (py_split ''1,2,x'' '',''). py_int (strip x) = None"
    by (simp add: elems)
  have all: "collect_filters City ?args = Inr []" by code_simp
  from in_filter_integer [where f = "''id''" and model = City and s = "''1,2,x''"
      and args = ?args, OF c e a n] bad
  obtain body where "generate_filter_function City exclude_fields = Inr body"
    and "IfInInt ''filter_id_in'' ''id__in'' \<in> set body"
    and "distinct (map stmt_key body) \<longrightarrow> ''id__in'' \<notin> dict_keys (generated_filter_function body ?args)"
    by auto
  moreover from this(1) have "distinct (map stmt_key body)"
    using City_distinct_keys by (simp add: distinct_keys_def)
  ultimately show ?thesis using all by blast
qed

text \<open>
  The claim C6 names the key \<open>column__like\<close>. On \<open>City\<close> with \<open>filter[name][like]=bob\<close> the
  mapping is the single entry \<open>name__ilike\<close>, and has no key \<open>name__like\<close>.
\<close>

theorem like_key_counterexample:
  "collect_filters City (map_of [(''filter_name_like'', PyStr ''bob'')])
     = Inr [(''name__ilike'', PyStr ''%bob%'')]
   \<and> ''name__like'' \<notin> dict_keys [(''name__ilike'', PyStr ''%bob%'')]"
proof -
  have "collect_filters City (map_of [(''filter_name_like'', PyStr ''bob'')])
          = Inr [(''name__ilike'', PyStr ''%bob%'')]"
    by code_simp
  then show ?thesis by (simp add: dict_keys_def)
qed

theorem like_filter_entry_witness:
  "\<exists>body. generate_filter_function City exclude_fields = Inr body
       \<and> IfLike ''filter_name_like'' ''name__ilike'' \<in> set body
       \<and> map_of (generated_filter_function body (map_of [(''filter_name_like'', PyStr ''bob'')]))
            ''name__ilike'' = Some (PyStr ''%bob%'')"
proof -
  let ?args = "map_of [(''filter_name_like'', PyStr ''bob'')]"
  have c: "(''name'', AutoString) \<in> set (columns City)" by (simp add: City_def)
  have e: "''name'' \<notin> set exclude_fields" by (simp add: exclude_fields_def)
  have t: "AutoString = String \<or> AutoString = AutoString" by simp
  have a: "?args (''filter_'' @ ''name'' @ ''_like'') = Some (PyStr ''bob'') \<and> ''bob'' \<noteq> []"
    by simp
  from like_filter_entry [where f = "''name''" and t = AutoString and model = City
      and args = ?args and v = "''bob''", OF c e t] a
  obtain body where "generate_filter_function City exclude_fields = Inr body"
    and "IfLike ''filter_name_like'' ''name__ilike'' \<in> set body"
    and "distinct (map stmt_key body) \<longrightarrow>
           map_of (generated_filter_function body ?args) ''name__ilike'' = Some (PyStr ''%bob%'')"
    by auto
  moreover from this(1) have "distinct (map stmt_key body)"
    using City_distinct_keys by (simp add: distinct_keys_def)
  ultimately show ?thesis by blast
qed

section \<open>The predicate composer\<close>

lemma filter_entry_segments:
  "filter_entry model_db stmt (k, v) =
     (let end_seg = operator_segment k; column = getattr model_db (column_segment k)
      in if end_seg = ''eq''
         then Inr (add_where stmt (column_eq column v))
         else if end_seg = ''ilike''
         then statement_filter stmt (column_method column ilike ''ilike'' v)
         else if end_seg = ''in''
         then statement_filter stmt (column_method column op_in ''in_'' v)
         else if end_seg = ''gte''
         then statement_filter stmt (column_compare column gte ''>='' v)
         else if end_seg = ''lte''
         then statement_filter stmt (column_compare column lte ''<='' v)
         else if end_seg = ''gt''
         then statement_filter stmt (column_compare column gt ''>'' v)
         else if end_seg = ''lt''
         then statement_filter stmt (column_compare column lt ''<'' v)
         else Inl (HTTPException 422 UnsupportedSQLOperator))"
proof (cases "py_split k ''__''")
  case Nil
  then show ?thesis using py_split_nonempty [of k "''__''"] by simp
next
  case (Cons b rest)
  then show ?thesis
    by (cases rest)
       (simp_all add: filter_entry_def operator_segment_def column_segment_def
          operator_value_def Let_def)
qed

text \<open>Building a condition raises no HTTP error, and a condition built is added to the statement.\<close>

lemma statement_filter_method:
  "statement_filter stmt (column_method column operator method v) \<noteq> Inl (HTTPException code d)"
  "statement_filter stmt (column_method column operator method v) = Inr stmt'
     \<Longrightarrow> \<exists>c. stmt' = add_where stmt c"
  by (auto simp: statement_filter_def column_method_def
      split: option.splits attribute.splits sum.splits)

lemma statement_filter_compare:
  "statement_filter stmt (column_compare column operator symbol v) \<noteq> Inl (HTTPException code d)"
  "statement_filter stmt (column_compare column operator symbol v) = Inr stmt'
     \<Longrightarrow> \<exists>c. stmt' = add_where stmt c"
  by (auto simp: statement_filter_def column_compare_def
      split: option.splits attribute.splits py_value.splits sum.splits)


lemma supported_entry:
  assumes "operator_segment k \<in> set supported_operators"
  shows "filter_entry model_db stmt (k, v) \<noteq> Inl (HTTPException 422 d)"
  using assms
  by (auto simp: filter_entry_segments supported_operators_def operator_value_def Let_def
      statement_filter_method(1) statement_filter_compare(1))





lemma filter_entries_supported:
  assumes "\<forall>k \<in> dict_keys filters. operator_segment k \<in> set supported_operators"
  shows "filter_entries model_db stmt filters \<noteq> Inl (HTTPException 422 d)"
  using assms
proof (induction filters arbitrary: stmt)
  case Nil
  then show ?case by simp
next
  case (Cons entry filters)
  obtain k v where entry: "entry = (k, v)" by (cases entry)
  from Cons.prems entry have k: "operator_segment k \<in> set supported_operators"
    and rest: "\<forall>k \<in> dict_keys filters. operator_segment k \<in> set supported_operators"
    by (auto simp: dict_keys_def)
  show ?case
    using Cons.IH [OF rest] supported_entry [OF k, of model_db stmt v d] entry
    by (cases "filter_entry model_db stmt (k, v)") auto
qed

lemma set_filters_supported:
  assumes "\<forall>k \<in> dict_keys filters. operator_segment k \<in> set supported_operators"
  shows "set_filters stmt model_db filters \<noteq> Inl (HTTPException 422 d)"
  using filter_entries_supported [OF assms, of model_db stmt d]
  by (auto simp: set_filters_def split: option.splits)




lemma py_split_no_dunder:
  "\<not> contains_dunder c \<Longrightarrow> py_split c ''__'' = [c]"
  by (induction c) auto

lemma take2_append:
  "xs \<noteq> [] \<Longrightarrow> tl xs \<noteq> [] \<Longrightarrow> take 2 (xs @ ys) = take 2 xs"
  by (cases xs; cases "tl xs") auto

lemma py_split_key:
  assumes "\<not> contains_dunder c" and "c = [] \<or> last c \<noteq> CHR ''_''"
    and "\<not> contains_dunder operator"
  shows "py_split (c @ ''__'' @ operator) ''__'' = [c, operator]"
  using assms(1,2)
proof (induction c)
  case Nil
  then show ?case using py_split_no_dunder [OF assms(3)] by simp
next
  case (Cons x xs)
  have ih: "py_split (xs @ ''__'' @ operator) ''__'' = [xs, operator]"
    using Cons by (auto split: if_splits)
  have "take 2 ((x # xs) @ ''__'' @ operator) \<noteq> ''__''"
  proof (cases xs)
    case Nil
    with Cons.prems show ?thesis by simp
  next
    case (Cons y ys)
    with Cons.prems show ?thesis by auto
  qed
  then show ?case using ih by simp
qed

lemma plain_key_segments:
  assumes "plain_name c"
  shows "operator_segment c = ''eq''"
    and "\<not> contains_dunder operator \<Longrightarrow> operator_segment (c @ ''__'' @ operator) = operator"
    and "column_segment c = c"
    and "\<not> contains_dunder operator \<Longrightarrow> column_segment (c @ ''__'' @ operator) = c"
proof -
  have nd: "\<not> contains_dunder c" and l: "c = [] \<or> last c \<noteq> CHR ''_''"
    using assms by (simp_all add: plain_name_def)
  show "operator_segment c = ''eq''"
    by (simp add: operator_segment_def py_split_no_dunder [OF nd] operator_value_def)
  show "column_segment c = c"
    by (simp add: column_segment_def py_split_no_dunder [OF nd])
  show "\<not> contains_dunder operator \<Longrightarrow> operator_segment (c @ ''__'' @ operator) = operator"
    using py_split_key [OF nd l, of operator] by (simp add: operator_segment_def)
  show "\<not> contains_dunder operator \<Longrightarrow> column_segment (c @ ''__'' @ operator) = c"
    using py_split_key [OF nd l, of operator] by (simp add: column_segment_def)
qed

text \<open>The key of a generated statement: the column name, or the column name, \<open>__\<close> and an operator the composer accepts.\<close>

lemma gen_stmt_for_key:
  assumes "gen_stmt_for f t operator = Inr s" and "operator \<in> set global_operators"
  shows "stmt_key s = f
         \<or> (\<exists>op \<in> {''ilike'', ''in'', ''gte'', ''lte'', ''gt'', ''lt''}. stmt_key s = f @ ''__'' @ op)"
  using assms
  by (auto simp: gen_stmt_for_def global_operators_def OPERATOR_MAPPING_def Let_def stmt_key_def
      split: if_splits)

lemma generated_key_form:
  assumes "generate_filter_function model exclude_fields = Inr body"
    and "k \<in> dict_keys (generated_filter_function body args)"
  shows "\<exists>(f, t) \<in> set (get_model_fields model exclude_fields).
           k = f \<or> (\<exists>op \<in> {''ilike'', ''in'', ''gte'', ''lte'', ''gt'', ''lt''}. k = f @ ''__'' @ op)"
proof -
  have "dict_keys (generated_filter_function body args) \<subseteq> stmt_key ` set body"
    using dict_keys_foldl_run_stmt [of args "[]" body]
    by (simp add: generated_filter_function_def dict_keys_def)
  with assms(2) obtain s where s: "s \<in> set body" and k: "k = stmt_key s" by auto
  from generated_stmt_origin [OF assms(1) s]
  obtain f t operator where ft: "(f, t) \<in> set (get_model_fields model exclude_fields)"
    and op: "operator \<in> set (get_operators_for_type t)"
    and g: "gen_stmt_for f t operator = Inr s"
    by auto
  have "operator \<in> set global_operators" using op operators_global by blast
  from gen_stmt_for_key [OF g this] k ft show ?thesis by blast
qed

lemma generated_key_supported:
  assumes "generate_filter_function model exclude_fields = Inr body"
    and "\<forall>(f, t) \<in> set (get_model_fields model exclude_fields). plain_name f"
    and "k \<in> dict_keys (generated_filter_function body args)"
  shows "operator_segment k \<in> set supported_operators"
proof -
  from generated_key_form [OF assms(1,3)]
  obtain f t where ft: "(f, t) \<in> set (get_model_fields model exclude_fields)"
    and k: "k = f \<or> (\<exists>op \<in> {''ilike'', ''in'', ''gte'', ''lte'', ''gt'', ''lt''}. k = f @ ''__'' @ op)"
    by auto
  from assms(2) ft have p: "plain_name f" by auto
  from k show ?thesis
  proof
    assume "k = f"
    then show ?thesis using plain_key_segments(1) [OF p]
      by (simp add: supported_operators_def operator_value_def)
  next
    assume "\<exists>op \<in> {''ilike'', ''in'', ''gte'', ''lte'', ''gt'', ''lt''}. k = f @ ''__'' @ op"
    then obtain op where op: "op \<in> {''ilike'', ''in'', ''gte'', ''lte'', ''gt'', ''lt''}"
      and k': "k = f @ ''__'' @ op" by blast
    from op have "\<not> contains_dunder op" by auto
    from plain_key_segments(2) [OF p this] k' op show ?thesis
      by (auto simp: supported_operators_def operator_value_def)
  qed
qed

text \<open>
  C10, amended. Generation succeeds, and every key of a mapping the generated function
  returns is a filterable column name or such a name followed by \<open>__\<close> and one of
  \<open>ilike\<close>, \<open>in\<close>, \<open>gte\<close>, \<open>lte\<close>, \<open>gt\<close>, \<open>lt\<close>. When no filterable column name contains \<open>__\<close>
  or ends with \<open>_\<close>, the composer never answers such a mapping with the 422 error.
\<close>

theorem generated_keys_accepted:
  "\<exists>body. generate_filter_function model exclude_fields = Inr body
     \<and> (\<forall>k \<in> dict_keys (generated_filter_function body args).
          \<exists>(f, t) \<in> set (get_model_fields model exclude_fields).
            k = f \<or> (\<exists>op \<in> {''ilike'', ''in'', ''gte'', ''lte'', ''gt'', ''lt''}. k = f @ ''__'' @ op))
     \<and> ((\<forall>(f, t) \<in> set (get_model_fields model exclude_fields). plain_name f) \<longrightarrow>
          set_filters stmt model (generated_filter_function body args)
            \<noteq> Inl (HTTPException 422 d))"
proof -
  obtain body where body: "generate_filter_function model exclude_fields = Inr body"
    using generate_filter_function_total by blast
  have form: "\<forall>k \<in> dict_keys (generated_filter_function body args).
          \<exists>(f, t) \<in> set (get_model_fields model exclude_fields).
            k = f \<or> (\<exists>op \<in> {''ilike'', ''in'', ''gte'', ''lte'', ''gt'', ''lt''}. k = f @ ''__'' @ op)"
    using generated_key_form [OF body] by blast
  have safe: "(\<forall>(f, t) \<in> set (get_model_fields model exclude_fields). plain_name f) \<longrightarrow>
          set_filters stmt model (generated_filter_function body args)
            \<noteq> Inl (HTTPException 422 d)"
  proof
    assume plain: "\<forall>(f, t) \<in> set (get_model_fields model exclude_fields). plain_name f"
    have "\<forall>k \<in> dict_keys (generated_filter_function body args).
            operator_segment k \<in> set supported_operators"
      using generated_key_supported [OF body plain] by blast
    then show "set_filters stmt model (generated_filter_function body args)
            \<noteq> Inl (HTTPException 422 d)"
      by (rule set_filters_supported)
  qed
  from body form safe show ?thesis by blast
qed

lemma City_plain_names: "\<forall>(f, t) \<in> set (get_model_fields City exclude_fields). plain_name f"
  by code_simp

theorem generated_keys_accepted_witness:
  "\<exists>body. generate_filter_function City exclude_fields = Inr body
     \<and> set_filters select City
          (generated_filter_function body (map_of [(''filter_name_like'', PyStr ''bob'')]))
         \<noteq> Inl (HTTPException 422 UnsupportedSQLOperator)"
  using generated_keys_accepted [where model = City and stmt = select
      and args = "map_of [(''filter_name_like'', PyStr ''bob'')]" and d = UnsupportedSQLOperator]
    City_plain_names
  by blast

text \<open>
  The claim C10 on a table with the text column \<open>type_\<close>: the parameter
  \<open>filter[type_][like]=x\<close> gives the key \<open>type___ilike\<close>, which the composer splits into
  \<open>type\<close> and \<open>_ilike\<close> and rejects with 422.
\<close>

theorem generated_keys_counterexample:
  "collect_filters Thing (map_of [(''filter_type__like'', PyStr ''x'')])
     = Inr [(''type___ilike'', PyStr ''%x%'')]
   \<and> set_filters select Thing [(''type___ilike'', PyStr ''%x%'')]
       = Inl (HTTPException 422 UnsupportedSQLOperator)"
  by code_simp

section \<open>The handlers and the status scope\<close>

lemma first_of_filter:
  "(case filter P xs of [] \<Rightarrow> None | r # rest \<Rightarrow> Some r) = find P xs"
  by (induction xs) auto

lemma exec_first_lookup:
  "exec_first sess (add_where (add_where select c1) c2)
     = find (\<lambda>r. holds sess r c1 \<and> holds sess r c2) (table_rows sess)"
  by (simp add: exec_first_def exec_all_def matching_def add_where_def select_def
      first_of_filter)

lemma find_by_id:
  assumes "distinct (map row_id rows)" and "r \<in> set rows"
  shows "find (\<lambda>x. row_id x = row_id r \<and> Q x) rows = (if Q r then Some r else None)"
  using assms
proof (induction rows)
  case Nil
  then show ?case by simp
next
  case (Cons x rows)
  show ?case
  proof (cases "x = r")
    case True
    with Cons.prems have "row_id r \<notin> row_id ` set rows" by simp
    then have "\<forall>y \<in> set rows. row_id y \<noteq> row_id r" by (metis imageI)
    then have "find (\<lambda>x. row_id x = row_id r \<and> Q x) rows = None"
      unfolding find_None_iff by blast
    with True show ?thesis by simp
  next
    case False
    with Cons.prems have mem: "r \<in> set rows" and d: "distinct (map row_id rows)"
      and ne: "row_id x \<noteq> row_id r" by auto
    from Cons.IH [OF d mem] ne show ?thesis by simp
  qed
qed

lemma find_by_id_mem:
  "find (\<lambda>x. row_id x = i \<and> Q x) rows = Some r \<Longrightarrow> r \<in> set rows \<and> row_id r = i \<and> Q r"
  by (auto simp: find_Some_iff)

lemma session_get_row:
  assumes "distinct (map row_id (table_rows sess))" and "r \<in> set (table_rows sess)"
  shows "session_get sess (row_id r) = Some r"
  using find_by_id [OF assms, of "\<lambda>x. True"] by (simp add: session_get_def)

lemma commit_rows:
  assumes "distinct (map row_id (table_rows sess))" and "r \<in> set (table_rows sess)"
    and "row_id r' = row_id r"
  shows "distinct (map row_id (table_rows (session_commit sess (row_id r) r')))"
    and "r' \<in> set (table_rows (session_commit sess (row_id r) r'))"
proof -
  have same: "\<And>rows. map row_id (map (\<lambda>x. if row_id x = row_id r then r' else x) rows)
          = map row_id rows"
    subgoal for rows using assms(3) by (induction rows) auto
    done
  have "table_rows (session_commit sess (row_id r) r')
          = map (\<lambda>x. if row_id x = row_id r then r' else x) (table_rows sess)"
    by (simp add: session_commit_def)
  then show "distinct (map row_id (table_rows (session_commit sess (row_id r) r')))"
    using assms(1) same [of "table_rows sess"] by (simp only:)
  show "r' \<in> set (table_rows (session_commit sess (row_id r) r'))"
    using assms(2) by (auto simp: session_commit_def)
qed

lemma commit_holds [simp]:
  "holds (session_commit sess i r') x (StatusEq s) = holds sess x (StatusEq s)"
  "holds (session_commit sess i r') x (StatusNe s) = holds sess x (StatusNe s)"
  "holds (session_commit sess i r') x (IdEq j) = holds sess x (IdEq j)"
  by (simp_all add: holds_def)

lemma delete_one_row:
  assumes "distinct (map row_id (table_rows sess))" and "r \<in> set (table_rows sess)"
  shows "delete_one sess (row_id r) =
           (if \<exists>st. status_id r = Some st \<and> st \<noteq> deleted
            then Inr (r\<lparr>status_id := Some deleted\<rparr>,
                      session_commit sess (row_id r) (r\<lparr>status_id := Some deleted\<rparr>))
            else Inl (HTTPException 404 (IdDoesntExist (row_id r))))"
proof -
  have "exec_first sess (add_where (add_where select (IdEq (row_id r))) (StatusNe deleted))
          = (if holds sess r (StatusNe deleted) then Some r else None)"
    using find_by_id [OF assms, of "\<lambda>x. holds sess x (StatusNe deleted)"]
    by (simp add: exec_first_lookup holds_def)
  moreover have "holds sess r (StatusNe deleted) = (\<exists>st. status_id r = Some st \<and> st \<noteq> deleted)"
    by (simp add: holds_def split: option.splits)
  ultimately show ?thesis by (simp add: delete_one_def Let_def)
qed

lemma restore_one_row:
  assumes "distinct (map row_id (table_rows sess))" and "r \<in> set (table_rows sess)"
  shows "restore_one sess (row_id r) =
           (if status_id r = Some deleted
            then Inr (r\<lparr>status_id := Some active\<rparr>,
                      session_commit sess (row_id r) (r\<lparr>status_id := Some active\<rparr>))
            else Inl (HTTPException 404 (IdDoesntExistToRestore (row_id r))))"
proof -
  have "exec_first sess (add_where (add_where select (IdEq (row_id r))) (StatusEq deleted))
          = (if holds sess r (StatusEq deleted) then Some r else None)"
    using find_by_id [OF assms, of "\<lambda>x. holds sess x (StatusEq deleted)"]
    by (simp add: exec_first_lookup holds_def)
  then show ?thesis by (simp add: restore_one_def Let_def holds_def)
qed

lemma filter_entry_adds:
  assumes "filter_entry model_db stmt (k, v) = Inr stmt'"
  shows "\<exists>c. stmt' = add_where stmt c"
  using assms
  by (auto simp: filter_entry_segments Let_def split: if_splits
      dest: statement_filter_method(2) statement_filter_compare(2))

lemma filter_entries_adds:
  assumes "filter_entries model_db stmt filters = Inr stmt'"
  shows "(\<exists>extra. whereclause stmt' = whereclause stmt @ extra)
         \<and> order_by_clauses stmt' = order_by_clauses stmt
         \<and> offset_clause stmt' = offset_clause stmt
         \<and> limit_clause stmt' = limit_clause stmt"
  using assms
proof (induction filters arbitrary: stmt)
  case Nil
  then show ?case by simp
next
  case (Cons entry filters)
  obtain k v where entry: "entry = (k, v)" by (cases entry)
  from Cons.prems entry obtain mid where mid: "filter_entry model_db stmt (k, v) = Inr mid"
    and rest: "filter_entries model_db mid filters = Inr stmt'"
    by (auto split: sum.splits)
  from filter_entry_adds [OF mid] obtain c where c: "mid = add_where stmt c" by blast
  from Cons.IH [OF rest] c show ?case by (auto simp: add_where_def)
qed

lemma set_filters_adds:
  assumes "set_filters stmt model_db filters = Inr stmt'"
  shows "(\<exists>extra. whereclause stmt' = whereclause stmt @ extra)
         \<and> order_by_clauses stmt' = order_by_clauses stmt
         \<and> offset_clause stmt' = offset_clause stmt
         \<and> limit_clause stmt' = limit_clause stmt"
proof (cases "filters = []")
  case True
  with assms show ?thesis by (simp add: set_filters_def)
next
  case False
  with assms have "filter_entries model_db stmt filters = Inr stmt'"
    by (auto simp: set_filters_def split: option.splits)
  then show ?thesis by (rule filter_entries_adds)
qed

text \<open>
  The statement a list request composes, when it composes one: the status condition comes
  first, the conditions of the filters follow, and there is no ordering clause and no
  window, so the pager receives it as its theorem assumes.
\<close>

lemma list_statement_shape:
  assumes "list_statement model_db params filters = Inr stmt"
  shows "sort_param params = None
         \<and> (\<exists>extra. whereclause stmt = StatusEq (status params) # extra)
         \<and> order_by_clauses stmt = []
         \<and> offset_clause stmt = None
         \<and> limit_clause stmt = None"
proof -
  from assms obtain mid
    where mid: "set_filters (set_status select model_db (status params)) model_db filters = Inr mid"
      and srt: "set_sorting mid model_db (sort_param params) = Inr stmt"
    by (auto simp: list_statement_def split: sum.splits)
  have none: "sort_param params = None"
  proof (cases "sort_param params")
    case None
    then show ?thesis .
  next
    case (Some s)
    with srt set_sorting_raises [of mid model_db s] show ?thesis by simp
  qed
  with srt have eq: "stmt = mid" by (simp add: set_sorting_def)
  from set_filters_adds [OF mid] eq none show ?thesis
    by (auto simp: set_status_def add_where_def select_def)
qed

lemma exec_all_unordered:
  assumes "order_by_clauses stmt = []"
  shows "set (exec_all sess stmt) \<subseteq> set (matching sess stmt)"
  using assms
  by (auto simp: exec_all_def Let_def split: option.splits dest: in_set_takeD in_set_dropD)

lemma get_list_data:
  assumes "get_list sess model_db params filters = Inr e" and "x \<in> set (data e)"
  shows "x \<in> set (table_rows sess) \<and> status_id x = Some (status params)"
proof -
  from assms(1) obtain stmt where stmt: "list_statement model_db params filters = Inr stmt"
    and pg: "set_offset_limit sess (pagination params) stmt = Inr e"
    by (auto simp: get_list_def split: sum.splits)
  from list_statement_shape [OF stmt] obtain extra
    where w: "whereclause stmt = StatusEq (status params) # extra"
      and o: "order_by_clauses stmt = []"
    by blast
  let ?win = "stmt\<lparr>offset_clause := Some ((page (pagination params) - 1) * per_page (pagination params)),
                    limit_clause := Some (per_page (pagination params))\<rparr>"
  from pg o have "data e = exec_all sess ?win"
    by (auto simp: set_offset_limit_def session_exec_def Let_def List.map_filter_simps
        split: if_splits sum.splits)
  with assms(2) have "x \<in> set (exec_all sess ?win)" by simp
  moreover have "order_by_clauses ?win = []" using o by simp
  ultimately have "x \<in> set (matching sess ?win)" using exec_all_unordered by blast
  then show ?thesis using w by (auto simp: matching_def holds_def)
qed

lemma same_id_same_row:
  assumes "distinct (map row_id rows)" and "x \<in> set rows" and "y \<in> set rows"
    and "row_id x = row_id y"
  shows "x = y"
  using assms by (auto simp: distinct_map dest: inj_onD)

text \<open>
  C8. In a table whose primary keys are unique, take a row \<open>r\<close>. When its status is
  \<open>active\<close> or \<open>inactive\<close>, deleting it returns the record with the status \<open>deleted\<close> and
  stores it; afterwards no list request in the \<open>active\<close> scope (the default) returns a row
  with that id, whatever its filters, and a second delete fails with the 404 error. When
  its status is \<open>deleted\<close>, restoring it returns the record with the status \<open>active\<close> and
  stores it, and deleting it fails with the 404 error.
\<close>

theorem soft_delete_restore:
  assumes "distinct (map row_id (table_rows sess))" and "r \<in> set (table_rows sess)"
  shows "(status_id r = Some st \<and> st \<noteq> deleted \<longrightarrow>
            delete_one sess (row_id r)
              = Inr (r\<lparr>status_id := Some deleted\<rparr>,
                     session_commit sess (row_id r) (r\<lparr>status_id := Some deleted\<rparr>))
            \<and> r\<lparr>status_id := Some deleted\<rparr>
                 \<in> set (table_rows (session_commit sess (row_id r) (r\<lparr>status_id := Some deleted\<rparr>)))
            \<and> (status params = active
                 \<and> get_list (session_commit sess (row_id r) (r\<lparr>status_id := Some deleted\<rparr>))
                      model_db params filters = Inr e
                 \<longrightarrow> (\<forall>x \<in> set (data e). row_id x \<noteq> row_id r))
            \<and> delete_one (session_commit sess (row_id r) (r\<lparr>status_id := Some deleted\<rparr>)) (row_id r)
                = Inl (HTTPException 404 (IdDoesntExist (row_id r))))
         \<and> (status_id r = Some deleted \<longrightarrow>
              restore_one sess (row_id r)
                = Inr (r\<lparr>status_id := Some active\<rparr>,
                       session_commit sess (row_id r) (r\<lparr>status_id := Some active\<rparr>))
              \<and> r\<lparr>status_id := Some active\<rparr>
                   \<in> set (table_rows (session_commit sess (row_id r) (r\<lparr>status_id := Some active\<rparr>)))
              \<and> delete_one sess (row_id r) = Inl (HTTPException 404 (IdDoesntExist (row_id r))))"
proof -
  let ?gone = "r\<lparr>status_id := Some deleted\<rparr>"
  let ?after = "session_commit sess (row_id r) ?gone"
  let ?restored = "r\<lparr>status_id := Some active\<rparr>"
  have id_gone: "row_id ?gone = row_id r" by simp
  have d': "distinct (map row_id (table_rows ?after))" and m': "?gone \<in> set (table_rows ?after)"
    using commit_rows [OF assms id_gone] by simp_all
  have del: "status_id r = Some st \<and> st \<noteq> deleted \<longrightarrow>
            delete_one sess (row_id r) = Inr (?gone, ?after)"
    using delete_one_row [OF assms] by simp
  have again: "delete_one ?after (row_id r) = Inl (HTTPException 404 (IdDoesntExist (row_id r)))"
    using delete_one_row [OF d' m'] by simp
  have scope: "status params = active \<and> get_list ?after model_db params filters = Inr e
                 \<longrightarrow> (\<forall>x \<in> set (data e). row_id x \<noteq> row_id r)"
  proof (intro impI ballI)
    fix x
    assume h: "status params = active \<and> get_list ?after model_db params filters = Inr e"
      and x: "x \<in> set (data e)"
    from h x get_list_data [of ?after model_db params filters e x]
    have xin: "x \<in> set (table_rows ?after)" and xs: "status_id x = Some active" by simp_all
    show "row_id x \<noteq> row_id r"
    proof
      assume "row_id x = row_id r"
      then have "x = ?gone" using same_id_same_row [OF d' xin m'] by simp
      with xs show False by simp
    qed
  qed
  have id_restored: "row_id ?restored = row_id r" by simp
  have res: "status_id r = Some deleted \<longrightarrow>
              restore_one sess (row_id r) = Inr (?restored, session_commit sess (row_id r) ?restored)"
    using restore_one_row [OF assms] by simp
  have restored_in: "?restored \<in> set (table_rows (session_commit sess (row_id r) ?restored))"
    using commit_rows(2) [OF assms id_restored] .
  have del2: "status_id r = Some deleted \<longrightarrow>
              delete_one sess (row_id r) = Inl (HTTPException 404 (IdDoesntExist (row_id r)))"
    using delete_one_row [OF assms] by simp
  show ?thesis using del m' scope again res restored_in del2 by blast
qed

lemma three_rows_distinct: "distinct (map row_id (table_rows three_rows))"
  by (simp add: three_rows_def)

theorem soft_delete_restore_witness:
  "map_sum id fst (delete_one three_rows 1) = Inr \<lparr>row_id = 1, status_id = Some deleted\<rparr>
   \<and> map_sum id fst
        (delete_one (session_commit three_rows 1 \<lparr>row_id = 1, status_id = Some deleted\<rparr>) 1)
       = Inl (HTTPException 404 (IdDoesntExist 1))
   \<and> map_sum id fst (restore_one three_rows 2) = Inr \<lparr>row_id = 2, status_id = Some active\<rparr>
   \<and> map_sum id fst (delete_one three_rows 2) = Inl (HTTPException 404 (IdDoesntExist 2))"
proof -
  have m1: "\<lparr>row_id = 1, status_id = Some active\<rparr> \<in> set (table_rows three_rows)"
    by (simp add: three_rows_def)
  have m2: "\<lparr>row_id = 2, status_id = Some deleted\<rparr> \<in> set (table_rows three_rows)"
    by (simp add: three_rows_def)
  from soft_delete_restore [OF three_rows_distinct m1, where st = active]
  have a: "delete_one three_rows 1
             = Inr (\<lparr>row_id = 1, status_id = Some deleted\<rparr>,
                    session_commit three_rows 1 \<lparr>row_id = 1, status_id = Some deleted\<rparr>)"
    and b: "delete_one (session_commit three_rows 1 \<lparr>row_id = 1, status_id = Some deleted\<rparr>) 1
             = Inl (HTTPException 404 (IdDoesntExist 1))"
    by simp_all
  from soft_delete_restore [OF three_rows_distinct m2]
  have c: "restore_one three_rows 2
             = Inr (\<lparr>row_id = 2, status_id = Some active\<rparr>,
                    session_commit three_rows 2 \<lparr>row_id = 2, status_id = Some active\<rparr>)"
    and e: "delete_one three_rows 2 = Inl (HTTPException 404 (IdDoesntExist 2))"
    by simp_all
  from a b c e show ?thesis by simp
qed

lemma delete_one_found:
  assumes "delete_one sess i = Inr (r', sess')"
  shows "\<exists>x \<in> set (table_rows sess). row_id x = i \<and> (\<exists>st. status_id x = Some st \<and> st \<noteq> deleted)"
proof -
  from assms obtain x
    where "find (\<lambda>r. holds sess r (IdEq i) \<and> holds sess r (StatusNe deleted)) (table_rows sess) = Some x"
    by (auto simp: delete_one_def exec_first_lookup split: option.splits)
  then have "x \<in> set (table_rows sess) \<and> holds sess x (IdEq i) \<and> holds sess x (StatusNe deleted)"
    by (auto simp: find_Some_iff)
  then show ?thesis by (auto simp: holds_def split: option.splits)
qed

lemma restore_one_found:
  assumes "restore_one sess i = Inr (r', sess')"
  shows "\<exists>x \<in> set (table_rows sess). row_id x = i \<and> status_id x = Some deleted"
proof -
  from assms obtain x
    where "find (\<lambda>r. holds sess r (IdEq i) \<and> holds sess r (StatusEq deleted)) (table_rows sess) = Some x"
    by (auto simp: restore_one_def exec_first_lookup split: option.splits)
  then have "x \<in> set (table_rows sess) \<and> holds sess x (IdEq i) \<and> holds sess x (StatusEq deleted)"
    by (auto simp: find_Some_iff)
  then show ?thesis by (auto simp: holds_def)
qed

text \<open>A row whose status is \<open>NULL\<close> is not matched by the lookup of delete.\<close>

lemma delete_one_null_status:
  assumes "distinct (map row_id (table_rows sess))" and "r \<in> set (table_rows sess)"
    and "status_id r = None"
  shows "delete_one sess (row_id r) = Inl (HTTPException 404 (IdDoesntExist (row_id r)))"
  using delete_one_row [OF assms(1,2)] assms(3) by simp

text \<open>
  C1, amended. The rows a list request returns all have the status of the request, which
  is \<open>active\<close> when the caller supplies none. Delete succeeds only on a row whose status
  is set and is not \<open>deleted\<close>, restore only on a row whose status is \<open>deleted\<close>. View and
  update look the row up by its primary key alone: in a table with unique keys they find
  every row, whatever its status.
\<close>

theorem status_scope_of_lookups:
  "(get_list sess model_db params filters = Inr e \<longrightarrow>
      (\<forall>x \<in> set (data e). status_id x = Some (status params)))
   \<and> status (query_params None sort_q page_q per_page_q) = active
   \<and> (delete_one sess i = Inr (r', sess') \<longrightarrow>
        (\<exists>x \<in> set (table_rows sess). row_id x = i \<and> (\<exists>st. status_id x = Some st \<and> st \<noteq> deleted)))
   \<and> (restore_one sess i = Inr (r', sess') \<longrightarrow>
        (\<exists>x \<in> set (table_rows sess). row_id x = i \<and> status_id x = Some deleted))
   \<and> (distinct (map row_id (table_rows sess)) \<and> r \<in> set (table_rows sess) \<longrightarrow>
        get_one sess (row_id r) = Inr r
        \<and> update_one sess upd (row_id r)
            = (case upd r of
                 None \<Rightarrow> Inl (HTTPException 422 ErrorDuringUpdating)
               | Some r2 \<Rightarrow> Inr (r2, session_commit sess (row_id r) r2)))"
proof -
  have l: "get_list sess model_db params filters = Inr e \<longrightarrow>
      (\<forall>x \<in> set (data e). status_id x = Some (status params))"
    using get_list_data [of sess model_db params filters e] by blast
  have q: "status (query_params None sort_q page_q per_page_q) = active"
    by (simp add: query_params_def)
  have d: "delete_one sess i = Inr (r', sess') \<longrightarrow>
        (\<exists>x \<in> set (table_rows sess). row_id x = i \<and> (\<exists>st. status_id x = Some st \<and> st \<noteq> deleted))"
    using delete_one_found by blast
  have u: "restore_one sess i = Inr (r', sess') \<longrightarrow>
        (\<exists>x \<in> set (table_rows sess). row_id x = i \<and> status_id x = Some deleted)"
    using restore_one_found by blast
  have v: "distinct (map row_id (table_rows sess)) \<and> r \<in> set (table_rows sess) \<longrightarrow>
        get_one sess (row_id r) = Inr r
        \<and> update_one sess upd (row_id r)
            = (case upd r of
                 None \<Rightarrow> Inl (HTTPException 422 ErrorDuringUpdating)
               | Some r2 \<Rightarrow> Inr (r2, session_commit sess (row_id r) r2))"
    using session_get_row [of sess r] by (simp add: get_one_def update_one_def)
  from l q d u v show ?thesis by blast
qed

theorem status_scope_of_lookups_witness:
  "(\<exists>e. get_list three_rows City (query_params None None None None) [] = Inr e
        \<and> list_all (\<lambda>x. status_id x = Some active) (data e))
   \<and> (\<exists>x \<in> set (table_rows three_rows). row_id x = 1 \<and> (\<exists>st. status_id x = Some st \<and> st \<noteq> deleted))
   \<and> (\<exists>x \<in> set (table_rows three_rows). row_id x = 2 \<and> status_id x = Some deleted)
   \<and> get_one three_rows 3 = Inr \<lparr>row_id = 3, status_id = Some inactive\<rparr>"
proof -
  let ?e = "\<lparr>data = [\<lparr>row_id = 1, status_id = Some active\<rparr>], response_page = 1,
             response_per_page = 50, total_records = 1, pages = 1\<rparr>"
  let ?q = "query_params None None None None"
  have lst: "get_list three_rows City ?q [] = Inr ?e"
    by (simp add: get_list_def list_statement_def set_filters_def set_sorting_def set_status_def
        query_params_def set_offset_limit_def session_exec_def bound_values_def fits_int64_def
        List.map_filter_simps exec_all_def matching_def
        add_where_def select_def three_rows_def holds_def Let_def)
  have st: "status ?q = active" by (simp add: query_params_def)
  have del: "delete_one three_rows 1
               = Inr (\<lparr>row_id = 1, status_id = Some deleted\<rparr>,
                      session_commit three_rows 1 \<lparr>row_id = 1, status_id = Some deleted\<rparr>)"
    by (simp add: delete_one_def exec_first_lookup holds_def three_rows_def Let_def)
  have res: "restore_one three_rows 2
               = Inr (\<lparr>row_id = 2, status_id = Some active\<rparr>,
                      session_commit three_rows 2 \<lparr>row_id = 2, status_id = Some active\<rparr>)"
    by (simp add: restore_one_def exec_first_lookup holds_def three_rows_def Let_def)
  have mem: "distinct (map row_id (table_rows three_rows))
             \<and> \<lparr>row_id = 3, status_id = Some inactive\<rparr> \<in> set (table_rows three_rows)"
    by (simp add: three_rows_def)
  from status_scope_of_lookups [where sess = three_rows and model_db = City and params = ?q
      and filters = "[]" and e = ?e and i = 1
      and r' = "\<lparr>row_id = 1, status_id = Some deleted\<rparr>"
      and sess' = "session_commit three_rows 1 \<lparr>row_id = 1, status_id = Some deleted\<rparr>"] lst st del
  have a: "\<forall>x \<in> set (data ?e). status_id x = Some active"
    and b: "\<exists>x \<in> set (table_rows three_rows). row_id x = 1 \<and> (\<exists>st. status_id x = Some st \<and> st \<noteq> deleted)"
    by simp_all
  from status_scope_of_lookups [where sess = three_rows and i = 2
      and r' = "\<lparr>row_id = 2, status_id = Some active\<rparr>"
      and sess' = "session_commit three_rows 2 \<lparr>row_id = 2, status_id = Some active\<rparr>"
      and r = "\<lparr>row_id = 3, status_id = Some inactive\<rparr>"] res mem
  have c: "\<exists>x \<in> set (table_rows three_rows). row_id x = 2 \<and> status_id x = Some deleted"
    and g: "get_one three_rows 3 = Inr \<lparr>row_id = 3, status_id = Some inactive\<rparr>"
    by simp_all
  from a have "list_all (\<lambda>x. status_id x = Some active) (data ?e)" by (simp add: list_all_iff)
  with lst b c g show ?thesis by blast
qed

text \<open>
  The claim C1 for view and update, on a table with one row in each status: both find
  the active, the deleted and the inactive row alike (the update here changes nothing).
\<close>

theorem view_ignores_status:
  "get_one three_rows 1 = Inr \<lparr>row_id = 1, status_id = Some active\<rparr>
   \<and> get_one three_rows 2 = Inr \<lparr>row_id = 2, status_id = Some deleted\<rparr>
   \<and> get_one three_rows 3 = Inr \<lparr>row_id = 3, status_id = Some inactive\<rparr>
   \<and> map_sum id fst (update_one three_rows Some 1) = Inr \<lparr>row_id = 1, status_id = Some active\<rparr>
   \<and> map_sum id fst (update_one three_rows Some 2) = Inr \<lparr>row_id = 2, status_id = Some deleted\<rparr>
   \<and> map_sum id fst (update_one three_rows Some 3) = Inr \<lparr>row_id = 3, status_id = Some inactive\<rparr>"
  by (simp add: get_one_def update_one_def session_get_def three_rows_def)

end
